theory Spec2Isabelle
  imports Main "HOL-Library.Word"
begin

unbundle bit_operations_syntax

section \<open>Go values used by the permission filter\<close>

text \<open>
  A Go \<^verbatim>\<open>string\<close> is a sequence of bytes, here a \<open>string\<close> (a list of 8-bit \<open>char\<close>s).
  A \<^verbatim>\<open>[]byte\<close> is a list of 8-bit words; the nil slice is the empty list.
  A run-time panic of the Go code is a value of type \<open>panic\<close>.
\<close>

type_synonym bytes = "8 word list"

datatype panic = IndexOutOfRange

text \<open>\<^verbatim>\<open>xs[i]\<close> on a slice: Go panics when the index is out of range.\<close>

definition index :: "'a list \<Rightarrow> nat \<Rightarrow> panic + 'a" where
  "index xs i = (if i < length xs then Inr (xs ! i) else Inl IndexOutOfRange)"

subsection \<open>strings.Index and strings.SplitN\<close>

text \<open>
  \<^verbatim>\<open>strings.Index(s, sep)\<close>: the position of the first occurrence of \<open>sep\<close> in \<open>s\<close>;
  Go's \<open>-1\<close> is \<open>None\<close>.
\<close>

fun Index :: "string \<Rightarrow> string \<Rightarrow> nat option" where
  "Index [] sep = (if sep = [] then Some 0 else None)"
| "Index (c # cs) sep =
     (if take (length sep) (c # cs) = sep then Some 0
      else map_option Suc (Index cs sep))"

text \<open>
  The loop of \<^verbatim>\<open>strings.genSplit\<close>:
  \<^verbatim>\<open>for i < n { m := Index(s, sep); if m < 0 { break }; a[i] = s[:m]; s = s[m+len(sep):]; i++ }; a[i] = s\<close>
  with \<open>k\<close> the number of iterations still allowed (\<open>n - i\<close>).
\<close>

fun genSplitLoop :: "string \<Rightarrow> string \<Rightarrow> nat \<Rightarrow> string list" where
  "genSplitLoop s sep 0 = [s]"
| "genSplitLoop s sep (Suc k) =
     (case Index s sep of
        None \<Rightarrow> [s]
      | Some m \<Rightarrow> take m s # genSplitLoop (drop (m + length sep) s) sep k)"

text \<open>
  \<^verbatim>\<open>strings.SplitN(s, sep, n)\<close> for a non-empty separator: \<open>n = 0\<close> gives nil; a
  negative \<open>n\<close> stands for one more than the number of separators in \<open>s\<close>, so that the
  loop runs until no separator is left, which takes at most \<open>len(s)\<close> rounds; a positive
  \<open>n\<close> is capped at \<open>len(s) + 1\<close>, and at most \<open>n - 1\<close> separators are consumed. The program
  calls it with \<open>sep = ":"\<close> and \<open>n = 2\<close>. The branch for the empty separator (splitting
  into UTF-8 sequences) is never reached from this program and is left out: for it the
  definition returns nil.
\<close>

definition SplitN :: "string \<Rightarrow> string \<Rightarrow> int \<Rightarrow> string list" where
  "SplitN s sep n =
     (if n = 0 \<or> sep = [] then []
      else if n < 0 then genSplitLoop s sep (length s)
      else genSplitLoop s sep (nat (min n (int (length s) + 1)) - 1))"

subsection \<open>net.IP and its textual form\<close>

text \<open>\<^verbatim>\<open>net.IP\<close> is a byte slice: 4 bytes for IPv4, 16 for IPv6, any other length is possible.\<close>

type_synonym IP = bytes

definition digits :: string where
  "digits = ''0123456789abcdef''"

text \<open>\<^verbatim>\<open>hexString\<close>: two lower-case hexadecimal digits for each byte.\<close>

definition hexString :: "bytes \<Rightarrow> string" where
  "hexString b = concat (map (\<lambda>tn. [digits ! (unat tn div 16), digits ! (unat tn mod 16)]) b)"

text \<open>\<^verbatim>\<open>appendDecimal\<close> for one byte, without leading zeros.\<close>

definition appendDecimal :: "8 word \<Rightarrow> string" where
  "appendDecimal w =
     (let x = unat w in
        (if x \<ge> 100 then [digits ! (x div 100)] else []) @
        (if x \<ge> 10 then [digits ! (x div 10 mod 10)] else []) @
        [digits ! (x mod 10)])"

text \<open>\<^verbatim>\<open>appendHex\<close> for one 16-bit field, without leading zeros.\<close>

definition appendHex :: "nat \<Rightarrow> string" where
  "appendHex x =
     (if x \<ge> 0x1000 then [digits ! (x div 0x1000 mod 16)] else []) @
     (if x \<ge> 0x100 then [digits ! (x div 0x100 mod 16)] else []) @
     (if x \<ge> 0x10 then [digits ! (x div 0x10 mod 16)] else []) @
     [digits ! (x mod 16)]"

definition isZeros :: "bytes \<Rightarrow> bool" where
  "isZeros p = list_all (\<lambda>b. b = 0) p"

text \<open>\<^verbatim>\<open>IP.To4\<close>: the 4-byte form of an IPv4 or IPv4-mapped address, nil otherwise.\<close>

definition To4 :: "IP \<Rightarrow> IP" where
  "To4 ip =
     (if length ip = 4 then ip
      else if length ip = 16 \<and> isZeros (take 10 ip) \<and> ip ! 10 = 0xff \<and> ip ! 11 = 0xff
      then drop 12 ip
      else [])"

definition string4 :: "IP \<Rightarrow> string" where
  "string4 p = appendDecimal (p ! 0) @ ''.'' @ appendDecimal (p ! 1) @ ''.'' @
               appendDecimal (p ! 2) @ ''.'' @ appendDecimal (p ! 3)"

text \<open>The \<open>i\<close>-th 16-bit field of a 16-byte address (big endian).\<close>

definition v6u16 :: "IP \<Rightarrow> nat \<Rightarrow> nat" where
  "v6u16 ip i = unat (ip ! (2 * i)) * 256 + unat (ip ! (2 * i + 1))"

text \<open>\<^verbatim>\<open>for j < 8 && ip.v6u16(j) == 0 { j++ }\<close>\<close>

function zeroRunEnd :: "IP \<Rightarrow> nat \<Rightarrow> nat" where
  "zeroRunEnd ip j = (if j < 8 \<and> v6u16 ip j = 0 then zeroRunEnd ip (j + 1) else j)"
  by pat_completeness auto
termination
  by (relation "measure (\<lambda>(ip, j). 8 - j)") auto

declare zeroRunEnd.simps [simp del]

text \<open>
  The search for the longest run of at least two zero fields (the first one on a tie):
  \<^verbatim>\<open>
  zeroStart, zeroEnd := uint8(255), uint8(255)
  for i := uint8(0); i < 8; i++ {
      j := i
      for j < 8 && ip.v6u16(j) == 0 { j++ }
      if l := j - i; l >= 2 && l > zeroEnd-zeroStart { zeroStart, zeroEnd = i, j }
  }\<close>
  The body's conditional update is \<open>zeroUpdate\<close>.
\<close>

definition zeroUpdate :: "nat \<Rightarrow> nat \<Rightarrow> nat \<times> nat \<Rightarrow> nat \<times> nat" where
  "zeroUpdate i j z = (if j - i \<ge> 2 \<and> j - i > snd z - fst z then (i, j) else z)"

function findZeros :: "IP \<Rightarrow> nat \<Rightarrow> nat \<times> nat \<Rightarrow> nat \<times> nat" where
  "findZeros ip i z =
     (if i < 8 then findZeros ip (i + 1) (zeroUpdate i (zeroRunEnd ip i) z) else z)"
  by pat_completeness auto
termination
  by (relation "measure (\<lambda>(ip, i, z). 8 - i)") auto

declare findZeros.simps [simp del]

text \<open>
  The output loop:
  \<^verbatim>\<open>
  for i := uint8(0); i < 8; i++ {
      if i == zeroStart {
          ret = append(ret, ':', ':')
          i = zeroEnd
          if i >= 8 { break }
      } else if i > 0 {
          ret = append(ret, ':')
      }
      ret = appendHex(ret, ip.v6u16(i))
  }\<close>
  The pair found above always has \<open>zeroStart < zeroEnd\<close> (lemma \<open>findZeros_inv\<close>); the
  test \<open>i < zeroEnd\<close> only makes the recursion well-founded for every argument.
\<close>

function string6Loop :: "IP \<Rightarrow> nat \<times> nat \<Rightarrow> nat \<Rightarrow> string" where
  "string6Loop ip z i =
     (if i < 8 then
        (if i = fst z \<and> i < snd z then
           (if snd z \<ge> 8 then ''::''
            else ''::'' @ appendHex (v6u16 ip (snd z)) @ string6Loop ip z (snd z + 1))
         else (if i > 0 then '':'' else []) @ appendHex (v6u16 ip i) @ string6Loop ip z (i + 1))
      else [])"
  by pat_completeness auto
termination
  by (relation "measure (\<lambda>(ip, z, i). 8 - i)") auto

declare string6Loop.simps [simp del]

definition string6 :: "IP \<Rightarrow> string" where
  "string6 ip = string6Loop ip (findZeros ip 0 (255, 255)) 0"

text \<open>
  \<^verbatim>\<open>IP.String\<close>: \<open>"<nil>"\<close> for the empty slice, \<open>"?"\<close> and the bytes in hexadecimal for a
  length that is neither 4 nor 16, dotted decimal for an IPv4 or IPv4-mapped address,
  and the compressed colon form for any other 16-byte address.
\<close>

definition IP_String :: "IP \<Rightarrow> string" where
  "IP_String ip =
     (if length ip = 0 then ''<nil>''
      else if length ip \<noteq> 4 \<and> length ip \<noteq> 16 then ''?'' @ hexString ip
      else (let p4 = To4 ip in
              if length p4 = 4 then string4 p4 else string6 ip))"

subsection \<open>net.Addr\<close>

text \<open>\<^verbatim>\<open>itoa.Uitoa\<close> and \<^verbatim>\<open>itoa.Itoa\<close>: decimal digits, most significant first.\<close>

fun Uitoa :: "nat \<Rightarrow> string" where
  "Uitoa val = (if val \<ge> 10 then Uitoa (val div 10) @ [digits ! (val mod 10)]
                else [digits ! val])"

declare Uitoa.simps [simp del]

definition Itoa :: "int \<Rightarrow> string" where
  "Itoa val = (if val < 0 then ''-'' @ Uitoa (nat (- val)) else Uitoa (nat val))"

text \<open>\<^verbatim>\<open>net.JoinHostPort\<close>: a host that contains a colon is put in brackets.\<close>

definition JoinHostPort :: "string \<Rightarrow> string \<Rightarrow> string" where
  "JoinHostPort host port =
     (if CHR '':'' \<in> set host then ''['' @ host @ '']:'' @ port
      else host @ '':'' @ port)"

definition ipEmptyString :: "IP \<Rightarrow> string" where
  "ipEmptyString ip = (if length ip = 0 then [] else IP_String ip)"

text \<open>
  A \<^verbatim>\<open>net.Addr\<close> is an interface value. The two implementations that the server tells
  apart are \<^verbatim>\<open>*net.UDPAddr\<close> and \<^verbatim>\<open>*net.TCPAddr\<close> (fields \<open>IP\<close>, \<open>Port\<close>, \<open>Zone\<close>); any
  other implementation is known by the results of its methods \<open>Network()\<close> and
  \<open>String()\<close>. The values of the type are the addresses themselves: the server hands
  the callbacks the address a packet came from, never a nil interface.
\<close>

datatype Addr =
    UDPAddr IP int string
  | TCPAddr IP int string
  | OtherAddr string string

definition ipPortString :: "IP \<Rightarrow> int \<Rightarrow> string \<Rightarrow> string" where
  "ipPortString ip port zone =
     (if zone \<noteq> [] then JoinHostPort (ipEmptyString ip @ ''%'' @ zone) (Itoa port)
      else JoinHostPort (ipEmptyString ip) (Itoa port))"

fun Addr_String :: "Addr \<Rightarrow> string" where
  "Addr_String (UDPAddr ip port zone) = ipPortString ip port zone"
| "Addr_String (TCPAddr ip port zone) = ipPortString ip port zone"
| "Addr_String (OtherAddr network text) = text"

section \<open>The permission handler\<close>

text \<open>
  \<^verbatim>\<open>
  PermissionHandler: func(clientAddr net.Addr, peerIP net.IP) bool {
      clientIP := strings.SplitN(clientAddr.String(), ":", 2)
      if clientIP[0] != peerIP.String() {
          log.Printf("Blocking request from client IP %s to peer %s", clientIP[0], peerIP.String())
          return false
      }
      log.Printf("Admitting request from client IP %s to peer %s", clientIP[0], peerIP.String())
      return true
  }\<close>
  The process-wide logger is the only state the handler touches: the messages given to
  \<open>log.Printf\<close> so far are passed in and returned, extended by this call's message.
\<close>

definition PermissionHandler :: "Addr \<Rightarrow> IP \<Rightarrow> string list \<Rightarrow> panic + (bool \<times> string list)" where
  "PermissionHandler clientAddr peerIP lg =
     (let clientIP = SplitN (Addr_String clientAddr) '':'' 2 in
        case index clientIP 0 of
          Inl p \<Rightarrow> Inl p
        | Inr host \<Rightarrow>
            if host \<noteq> IP_String peerIP then
              Inr (False, lg @ [''Blocking request from client IP '' @ host @
                                '' to peer '' @ IP_String peerIP])
            else
              Inr (True, lg @ [''Admitting request from client IP '' @ host @
                               '' to peer '' @ IP_String peerIP]))"


text \<open>
  The host component in the spec's words: the substring before the first \<open>':'\<close>
  (the whole string when there is none).
\<close>

definition hostPart :: "string \<Rightarrow> string" where
  "hostPart s = takeWhile (\<lambda>c. c \<noteq> CHR '':'') s"

section \<open>The credential index\<close>

subsection \<open>The regular expression \<^verbatim>\<open>(\w+)=(\w+)\<close>\<close>

text \<open>
  Go's \<^verbatim>\<open>\w\<close> is the ASCII class \<^verbatim>\<open>[0-9A-Za-z_]\<close>; every other byte (also a byte of a
  multi-byte UTF-8 sequence) is not a word character.
\<close>

definition isWord :: "char \<Rightarrow> bool" where
  "isWord c =
     (let n = (of_char c :: nat) in
        (48 \<le> n \<and> n \<le> 57) \<or> (65 \<le> n \<and> n \<le> 90) \<or> n = 95 \<or> (97 \<le> n \<and> n \<le> 122))"

text \<open>
  The match of the pattern that starts at the first character of \<open>s\<close>, if there is one:
  both groups are greedy, so the first group is the whole run of word characters at
  the start (a shorter one is followed by a word character, not by \<open>'='\<close>), an \<open>'='\<close>
  must follow, and the second group is the whole run of word characters after it,
  which must not be empty. The result is the two groups and the text after the match.
\<close>

definition matchAt :: "string \<Rightarrow> (string \<times> string \<times> string) option" where
  "matchAt s =
     (let w1 = takeWhile isWord s; r1 = dropWhile isWord s in
        if w1 = [] then None
        else (case r1 of
                [] \<Rightarrow> None
              | c # r2 \<Rightarrow>
                  if c = CHR ''='' \<and> takeWhile isWord r2 \<noteq> []
                  then Some (w1, takeWhile isWord r2, dropWhile isWord r2)
                  else None))"

text \<open>
  One execution of the expression on \<open>s\<close>: the leftmost match, found by trying the start
  positions from left to right.
\<close>

fun doExecute :: "string \<Rightarrow> (string \<times> string \<times> string) option" where
  "doExecute [] = None"
| "doExecute (c # cs) =
     (case matchAt (c # cs) of
        Some r \<Rightarrow> Some r
      | None \<Rightarrow> doExecute cs)"

text \<open>
  The loop of \<^verbatim>\<open>allMatches\<close>: execute, deliver the match (the whole match and the two
  groups), and go on behind it. A match of this pattern is never empty, so the special
  treatment of empty matches does not arise.
\<close>

function allMatches :: "string \<Rightarrow> string list list" where
  "allMatches s =
     (case doExecute s of
        None \<Rightarrow> []
      | Some (w1, w2, rest) \<Rightarrow> [w1 @ ''='' @ w2, w1, w2] # allMatches rest)"
  by pat_completeness auto
termination
proof (relation "measure length")
  show "wf (measure length)" by simp
next
  fix s :: string and r w1 r' w2 rest
  assume ex: "doExecute s = Some r" and r: "(w1, r') = r" and r': "(w2, rest) = r'"
  have m: "length c < length t" if "matchAt t = Some (a, b, c)" for t a b c
  proof -
    from that obtain x r2 where "dropWhile isWord t = x # r2" and c: "c = dropWhile isWord r2"
      by (auto simp: matchAt_def Let_def split: if_splits list.splits)
    then have "length r2 < length t"
      using length_dropWhile_le [of isWord t] by simp
    moreover have "length c \<le> length r2"
      using c length_dropWhile_le [of isWord r2] by simp
    ultimately show ?thesis by simp
  qed
  have "length c < length t" if "doExecute t = Some (a, b, c)" for t a b c
    using that
  proof (induction t)
    case Nil
    then show ?case by simp
  next
    case (Cons x xs)
    then show ?case
      using m [of "x # xs" a b c] by (auto split: option.splits)
  qed
  with ex r r' show "(rest, s) \<in> measure length" by auto
qed

declare allMatches.simps [simp del]

text \<open>
  \<^verbatim>\<open>FindAllStringSubmatch(s, n)\<close>: at most \<open>n\<close> matches, all of them when \<open>n < 0\<close> (then
  \<open>n = len(s) + 1\<close>, which no string reaches).
\<close>

definition FindAllStringSubmatch :: "string \<Rightarrow> int \<Rightarrow> string list list" where
  "FindAllStringSubmatch s n =
     take (if n < 0 then length s + 1 else nat n) (allMatches s)"

subsection \<open>Building the map and looking a user up\<close>

text \<open>
  \<^verbatim>\<open>
  usersMap := map[string][]byte{}
  for _, kv := range regexp.MustCompile(`(\w+)=(\w+)`).FindAllStringSubmatch(*users, -1) {
      usersMap[kv[1]] = turn.GenerateAuthKey(kv[1], *realm, kv[2])
  }\<close>
  \<^verbatim>\<open>turn.GenerateAuthKey\<close> is not among the source files; the loop is modelled for any
  key derivation \<open>GenerateAuthKey\<close>, a function of (username, realm, password).
\<close>

type_synonym keygen = "string \<Rightarrow> string \<Rightarrow> string \<Rightarrow> bytes"

fun usersMapLoop :: "keygen \<Rightarrow> string \<Rightarrow> string list list \<Rightarrow> (string \<rightharpoonup> bytes) \<Rightarrow>
    panic + (string \<rightharpoonup> bytes)" where
  "usersMapLoop GenerateAuthKey realm [] usersMap = Inr usersMap"
| "usersMapLoop GenerateAuthKey realm (kv # kvs) usersMap =
     (case index kv 1 of
        Inl p \<Rightarrow> Inl p
      | Inr username \<Rightarrow>
          (case index kv 2 of
             Inl p \<Rightarrow> Inl p
           | Inr password \<Rightarrow>
               usersMapLoop GenerateAuthKey realm kvs
                 (usersMap(username \<mapsto> GenerateAuthKey username realm password))))"

definition usersMapBuild :: "keygen \<Rightarrow> string \<Rightarrow> string \<Rightarrow> panic + (string \<rightharpoonup> bytes)" where
  "usersMapBuild GenerateAuthKey users realm =
     usersMapLoop GenerateAuthKey realm (FindAllStringSubmatch users (- 1)) Map.empty"

text \<open>
  \<^verbatim>\<open>
  AuthHandler: func(username string, realm string, srcAddr net.Addr) ([]byte, bool) {
      if key, ok := usersMap[username]; ok { return key, true }
      return nil, false
  }\<close>
\<close>

definition AuthHandler :: "(string \<rightharpoonup> bytes) \<Rightarrow> string \<Rightarrow> string \<Rightarrow> Addr \<Rightarrow> bytes \<times> bool" where
  "AuthHandler usersMap username realm srcAddr =
     (case usersMap username of
        Some key \<Rightarrow> (key, True)
      | None \<Rightarrow> ([], False))"

text \<open>
  The matches of a configuration string as (username, password) pairs, and the
  passwords given for one username, in the order of the string.
\<close>

definition pairs :: "string \<Rightarrow> (string \<times> string) list" where
  "pairs s = map (\<lambda>kv. (kv ! 1, kv ! 2)) (allMatches s)"

definition passwordsOf :: "string \<Rightarrow> string \<Rightarrow> string list" where
  "passwordsOf s u = map snd (filter (\<lambda>p. fst p = u) (pairs s))"


text \<open>
  The spec's words for the configuration: a token of word characters, and a
  comma-separated list of entries.
\<close>

definition wordToken :: "string \<Rightarrow> bool" where
  "wordToken w = (w \<noteq> [] \<and> list_all isWord w)"

fun commaList :: "string list \<Rightarrow> string" where
  "commaList [] = []"
| "commaList [e] = e"
| "commaList (e # es) = e @ CHR '','' # commaList es"

section \<open>The Binding responder\<close>

subsection \<open>Errors, the connection and the request\<close>

text \<open>
  The errors of the spec's taxonomy that the responder can return:
  \<open>AddressExtractionError\<close> and \<open>TransportSendError\<close> (with the transport's own message).
  Go's \<open>nil\<close> error is \<open>None\<close>.
\<close>

datatype error = AddressExtractionError | TransportSendError string

text \<open>
  A \<^verbatim>\<open>net.PacketConn\<close> as the responder sees it: the datagrams sent through it so far
  (one for each call of its \<open>WriteTo\<close>), each with its destination, and the result that
  the transport gives to a \<open>WriteTo\<close> (\<open>None\<close> when it accepts the datagram).
\<close>

record PacketConn =
  written :: "(bytes \<times> Addr) list"
  writeResult :: "error option"

definition WriteTo :: "PacketConn \<Rightarrow> bytes \<Rightarrow> Addr \<Rightarrow> error option \<times> PacketConn" where
  "WriteTo conn p addr = (writeResult conn, conn\<lparr>written := written conn @ [(p, addr)]\<rparr>)"

text \<open>
  The fields of the server's \<^verbatim>\<open>Request\<close> that the handler uses: the connection, the
  source address, and the logger (the lines given to \<open>Debugf\<close> so far).
\<close>

record Request =
  Conn :: PacketConn
  SrcAddr :: Addr
  Log :: "string list"

subsection \<open>STUN messages\<close>

text \<open>
  Modelled from the spec: the \<^verbatim>\<open>stun\<close> package that builds the message is not among the
  source files. A message is (transactionID, messageType, ordered attributes), as in the
  spec's data model; its bytes are the STUN wire format (RFC 5389): a 20-byte header
  (type, length of the attributes, magic cookie, transaction ID) and each attribute as
  type, length, value, padded with zeros to a multiple of four bytes.
\<close>

record MessageType =
  Method :: "16 word"
  Class :: "8 word"

record RawAttribute =
  AttrType :: "16 word"
  Value :: bytes

record Message =
  Type :: MessageType
  TransactionID :: bytes
  Attributes :: "RawAttribute list"

definition BindingSuccess :: MessageType where
  "BindingSuccess = \<lparr>Method = 0x001, Class = 0x02\<rparr>"

definition AttrXORMappedAddress :: "16 word" where
  "AttrXORMappedAddress = 0x0020"

definition AttrFingerprint :: "16 word" where
  "AttrFingerprint = 0x8028"

definition magicCookie :: "32 word" where
  "magicCookie = 0x2112A442"

definition be16 :: "16 word \<Rightarrow> bytes" where
  "be16 w = [ucast (drop_bit 8 w), ucast w]"

definition be32 :: "32 word \<Rightarrow> bytes" where
  "be32 w = [ucast (drop_bit 24 w), ucast (drop_bit 16 w), ucast (drop_bit 8 w), ucast w]"

definition u16 :: "bytes \<Rightarrow> 16 word" where
  "u16 b = push_bit 8 (ucast (b ! 0)) OR ucast (b ! 1)"

definition u32 :: "bytes \<Rightarrow> 32 word" where
  "u32 b = push_bit 24 (ucast (b ! 0)) OR push_bit 16 (ucast (b ! 1)) OR
           push_bit 8 (ucast (b ! 2)) OR ucast (b ! 3)"

text \<open>
  The 16-bit value of a message type: the method's bits with the two class bits
  inserted at positions 4 and 8.
\<close>

definition MessageType_Value :: "MessageType \<Rightarrow> 16 word" where
  "MessageType_Value t =
     (let m = Method t;
          a = m AND 0xf;
          b = m AND 0x70;
          d = m AND 0xf80;
          c = (ucast (Class t) :: 16 word);
          c0 = push_bit 4 (c AND 1);
          c1 = push_bit 7 (c AND 2)
      in a + push_bit 1 b + push_bit 2 d + (c0 + c1))"

definition nearestPaddedValueLength :: "nat \<Rightarrow> nat" where
  "nearestPaddedValueLength l = (let n = 4 * (l div 4) in if n < l then n + 4 else n)"

definition encodeAttr :: "RawAttribute \<Rightarrow> bytes" where
  "encodeAttr a =
     be16 (AttrType a) @ be16 (of_nat (length (Value a))) @ Value a @
     replicate (nearestPaddedValueLength (length (Value a)) - length (Value a)) 0"

definition attrsRaw :: "Message \<Rightarrow> bytes" where
  "attrsRaw m = concat (map encodeAttr (Attributes m))"

text \<open>The bytes of a message whose header announces \<open>len\<close> bytes of attributes.\<close>

definition RawWithLength :: "Message \<Rightarrow> nat \<Rightarrow> bytes" where
  "RawWithLength m len =
     be16 (MessageType_Value (Type m)) @ be16 (of_nat len) @ be32 magicCookie @
     TransactionID m @ attrsRaw m"

definition Raw :: "Message \<Rightarrow> bytes" where
  "Raw m = RawWithLength m (length (attrsRaw m))"

definition Add :: "Message \<Rightarrow> 16 word \<Rightarrow> bytes \<Rightarrow> Message" where
  "Add m t v = m\<lparr>Attributes := Attributes m @ [\<lparr>AttrType = t, Value = v\<rparr>]\<rparr>"

text \<open>\<open>Get\<close>: the value of the first attribute of the given type.\<close>

definition Get :: "Message \<Rightarrow> 16 word \<Rightarrow> bytes option" where
  "Get m t = map_option Value (find (\<lambda>a. AttrType a = t) (Attributes m))"

subsection \<open>XOR-MAPPED-ADDRESS\<close>

text \<open>
  Modelled from the spec: the attribute "encodes an IP+port obfuscated by XOR with a magic
  cookie and the transaction ID", and step 3 attaches it to the message. In the wire
  format the value is the address family (1 for an IPv4 address of 4 bytes, 2 for an
  IPv6 address), the port XOR the upper half of the cookie, and the address XOR
  (cookie, transaction ID).
\<close>

definition xorBytes :: "bytes \<Rightarrow> bytes \<Rightarrow> bytes" where
  "xorBytes a b = map (\<lambda>(x, y). x XOR y) (zip a b)"

definition xorValue :: "Message \<Rightarrow> bytes" where
  "xorValue m = be32 magicCookie @ take 12 (TransactionID m)"

definition XORMappedAddress_AddTo :: "IP \<Rightarrow> int \<Rightarrow> Message \<Rightarrow> error + Message" where
  "XORMappedAddress_AddTo ip port m =
     Inr (Add m AttrXORMappedAddress
            (be16 (if length ip = 4 then 0x01 else 0x02) @
             be16 (word_of_int port XOR 0x2112) @ xorBytes ip (xorValue m)))"

text \<open>
  Modelled from the spec: the decoding of the attribute belongs to the same absent
  package. It is the receiver's side of the encoding above: the family decides the
  length of the address, the port and the address are recovered by the same XOR.
\<close>

definition XORMappedAddress_GetFrom :: "Message \<Rightarrow> (IP \<times> int) option" where
  "XORMappedAddress_GetFrom m =
     (case Get m AttrXORMappedAddress of
        None \<Rightarrow> None
      | Some v \<Rightarrow>
          if length v \<le> 4 then None
          else
            (let family = u16 (take 2 v) in
               if family \<noteq> 0x02 \<and> family \<noteq> 0x01 then None
               else
                 (let ipLen = (if family = 0x02 then 16 else 4 :: nat) in
                    if ipLen < length (drop 4 v) then None
                    else
                      Some (xorBytes (drop 4 v) (xorValue m),
                            uint (u16 (take 2 (drop 2 v)) XOR 0x2112)))))"

subsection \<open>FINGERPRINT\<close>

text \<open>
  The IEEE CRC-32 of a byte sequence (reflected polynomial \<open>0xEDB88320\<close>, initial value
  and final XOR \<open>0xFFFFFFFF\<close>), one bit at a time; the FINGERPRINT value is this checksum
  XOR \<open>0x5354554e\<close>.
\<close>

definition crcBit :: "32 word \<Rightarrow> 32 word" where
  "crcBit c = (if c AND 1 = 1 then drop_bit 1 c XOR 0xEDB88320 else drop_bit 1 c)"

definition crcByte :: "32 word \<Rightarrow> 8 word \<Rightarrow> 32 word" where
  "crcByte c b = (crcBit ^^ 8) (c XOR ucast b)"

definition ChecksumIEEE :: "bytes \<Rightarrow> 32 word" where
  "ChecksumIEEE b = foldl crcByte 0xFFFFFFFF b XOR 0xFFFFFFFF"

definition FingerprintValue :: "bytes \<Rightarrow> 32 word" where
  "FingerprintValue b = ChecksumIEEE b XOR 0x5354554e"

text \<open>
  Modelled from the spec: FINGERPRINT is the "CRC32 checksum attribute appended last",
  "computed over the preceding bytes of the message". The checksum is taken over the
  message so far, with the header's length already counting the eight bytes of the
  FINGERPRINT attribute itself.
\<close>

definition Fingerprint_AddTo :: "Message \<Rightarrow> error + Message" where
  "Fingerprint_AddTo m =
     Inr (Add m AttrFingerprint
            (be32 (FingerprintValue (RawWithLength m (length (attrsRaw m) + 8)))))"

text \<open>
  Modelled from the spec: what makes a FINGERPRINT "valid" is the receiver's check of
  the absent package: the value is four bytes and equals the checksum of the bytes of
  the message before the last eight.
\<close>

definition Fingerprint_Check :: "Message \<Rightarrow> bool" where
  "Fingerprint_Check m =
     (case Get m AttrFingerprint of
        None \<Rightarrow> False
      | Some b \<Rightarrow>
          length b = 4 \<and>
          u32 b = FingerprintValue (take (length (Raw m) - 8) (Raw m)))"

subsection \<open>Building and sending\<close>

text \<open>
  Modelled from the spec: the builder of the absent package. The things that can be set
  on a message under construction are the transaction ID, the message type and the two
  attributes; a setter returns the changed message or an error, as the Go interface
  has it (none of the four has a failure in the spec).
\<close>

datatype Setter =
    SetTransactionID bytes
  | SetType MessageType
  | XORMappedAddress IP int
  | Fingerprint

fun AddTo :: "Setter \<Rightarrow> Message \<Rightarrow> error + Message" where
  "AddTo (SetTransactionID t) m = Inr (m\<lparr>TransactionID := t\<rparr>)"
| "AddTo (SetType t) m = Inr (m\<lparr>Type := t\<rparr>)"
| "AddTo (XORMappedAddress ip port) m = XORMappedAddress_AddTo ip port m"
| "AddTo Fingerprint m = Fingerprint_AddTo m"

fun applySetters :: "Setter list \<Rightarrow> Message \<Rightarrow> error + Message" where
  "applySetters [] m = Inr m"
| "applySetters (s # ss) m =
     (case AddTo s m of
        Inl err \<Rightarrow> Inl err
      | Inr m' \<Rightarrow> applySetters ss m')"

text \<open>\<open>Build\<close>: the setters applied in order to an empty message; the first error stops it.\<close>

definition Build :: "Setter list \<Rightarrow> error + Message" where
  "Build setters =
     applySetters setters
       \<lparr>Type = \<lparr>Method = 0, Class = 0\<rparr>, TransactionID = replicate 12 0, Attributes = []\<rparr>"

text \<open>
  Modelled from the spec: \<^verbatim>\<open>ipnet.AddrIPPort\<close>, \<^verbatim>\<open>buildMsg\<close> and \<^verbatim>\<open>buildAndSend\<close> are not among
  the source files. Step 1 extracts (IP, port) from the source address and "fails with
  \<open>AddressExtractionError\<close> if the address cannot be decomposed (e.g., malformed transport
  address)": a UDP or TCP address that holds an IPv4 or IPv6 address (4 or 16 bytes) and
  a port between 0 and 65535 decomposes into the two; a malformed one, and any other
  kind of address, does not. Step 2 starts the message with the request's transaction
  ID and the message type, followed by the attributes given. Step 5 builds the message
  and sends it through the connection; the transport's failure is returned unchanged.
\<close>

definition wellFormed :: "IP \<Rightarrow> int \<Rightarrow> bool" where
  "wellFormed ip port = ((length ip = 4 \<or> length ip = 16) \<and> 0 \<le> port \<and> port < 65536)"

fun AddrIPPort :: "Addr \<Rightarrow> error + (IP \<times> int)" where
  "AddrIPPort (UDPAddr ip port zone) =
     (if wellFormed ip port then Inr (ip, port) else Inl AddressExtractionError)"
| "AddrIPPort (TCPAddr ip port zone) =
     (if wellFormed ip port then Inr (ip, port) else Inl AddressExtractionError)"
| "AddrIPPort (OtherAddr network text) = Inl AddressExtractionError"

definition buildMsg :: "bytes \<Rightarrow> MessageType \<Rightarrow> Setter list \<Rightarrow> Setter list" where
  "buildMsg transactionID msgType additional =
     [SetTransactionID transactionID, SetType msgType] @ additional"

definition buildAndSend :: "PacketConn \<Rightarrow> Addr \<Rightarrow> Setter list \<Rightarrow> error option \<times> PacketConn" where
  "buildAndSend conn dst attrs =
     (case Build attrs of
        Inl err \<Rightarrow> (Some err, conn)
      | Inr msg \<Rightarrow> WriteTo conn (Raw msg) dst)"

subsection \<open>handleBindingRequest\<close>

text \<open>
  \<^verbatim>\<open>
  func handleBindingRequest(r Request, m *stun.Message) error {
      r.Log.Debugf("received BindingRequest from %s", r.SrcAddr.String())
      ip, port, err := ipnet.AddrIPPort(r.SrcAddr)
      if err != nil {
          return err
      }
      attrs := buildMsg(m.TransactionID, stun.BindingSuccess, &stun.XORMappedAddress{
          IP:   ip,
          Port: port,
      }, stun.Fingerprint)
      return buildAndSend(r.Conn, r.SrcAddr, attrs...)
  }\<close>
  The three helpers it calls are parameters of the model, so that what the function
  itself does can be stated for any of them. The connection and the logger are shared
  with the caller: the request is returned with both as the call leaves them.
\<close>

definition handleBindingRequest ::
  "(Addr \<Rightarrow> error + (IP \<times> int)) \<Rightarrow>
   (bytes \<Rightarrow> MessageType \<Rightarrow> Setter list \<Rightarrow> Setter list) \<Rightarrow>
   (PacketConn \<Rightarrow> Addr \<Rightarrow> Setter list \<Rightarrow> error option \<times> PacketConn) \<Rightarrow>
   Request \<Rightarrow> Message \<Rightarrow> error option \<times> Request" where
  "handleBindingRequest addrIPPort buildMsg' buildAndSend' r m =
     (let r1 = r\<lparr>Log := Log r @ [''received BindingRequest from '' @ Addr_String (SrcAddr r)]\<rparr> in
        case addrIPPort (SrcAddr r1) of
          Inl err \<Rightarrow> (Some err, r1)
        | Inr (ip, port) \<Rightarrow>
            (let attrs = buildMsg' (TransactionID m) BindingSuccess
                           [XORMappedAddress ip port, Fingerprint];
                 res = buildAndSend' (Conn r1) (SrcAddr r1) attrs
             in (fst res, r1\<lparr>Conn := snd res\<rparr>)))"

text \<open>The responder with the helpers as modelled above.\<close>

definition Handle :: "Request \<Rightarrow> Message \<Rightarrow> error option \<times> Request" where
  "Handle r m = handleBindingRequest AddrIPPort buildMsg buildAndSend r m"

section \<open>Properties of the permission handler\<close>

subsection \<open>Splitting at the first colon\<close>

lemma Index_single:
  "Index s [c] = (if c \<in> set s then Some (length (takeWhile (\<lambda>x. x \<noteq> c) s)) else None)"
  by (induction s) auto

lemma take_length_takeWhile: "take (length (takeWhile P s)) s = takeWhile P s"
  by (induction s) auto

lemma takeWhile_all: "c \<notin> set s \<Longrightarrow> takeWhile (\<lambda>x. x \<noteq> c) s = s"
  by (induction s) auto

lemma SplitN_colon_hd: "\<exists>rest. SplitN s '':'' 2 = hostPart s # rest"
proof (cases s)
  case Nil
  then show ?thesis by (simp add: SplitN_def hostPart_def)
next
  case (Cons a as)
  then have "nat (min 2 (int (length s) + 1)) - 1 = Suc 0" by simp
  then show ?thesis
    by (simp add: SplitN_def hostPart_def Index_single take_length_takeWhile takeWhile_all)
qed

lemma SplitN_no_colon: "CHR '':'' \<notin> set s \<Longrightarrow> SplitN s '':'' 2 = [s]"
proof (cases s)
  case Nil
  then show ?thesis by (simp add: SplitN_def)
next
  case (Cons a as)
  assume "CHR '':'' \<notin> set s"
  moreover from Cons have "nat (min 2 (int (length s) + 1)) - 1 = Suc 0" by simp
  ultimately show ?thesis
    by (simp add: SplitN_def Index_single)
qed

lemma index_SplitN: "index (SplitN s '':'' 2) 0 = Inr (hostPart s)"
  using SplitN_colon_hd [of s] by (auto simp: index_def)

lemma PermissionHandler_decision:
  "\<exists>line. PermissionHandler clientAddr peerIP lg =
     Inr (hostPart (Addr_String clientAddr) = IP_String peerIP, lg @ [line])"
  by (simp add: PermissionHandler_def index_SplitN)

subsection \<open>The first character of an IP's textual form\<close>

lemma digits_nth: "n < 16 \<Longrightarrow> digits ! n \<in> set digits"
  by (simp add: digits_def del: set_simps)

lemma digits_no_bracket: "n < 16 \<Longrightarrow> digits ! n \<noteq> CHR ''[''"
proof
  assume "n < 16" and "digits ! n = CHR ''[''"
  with digits_nth [of n] have "CHR ''['' \<in> set digits" by simp
  then show False by (simp add: digits_def)
qed

lemma appendDecimal_hd: "appendDecimal w \<noteq> [] \<and> hd (appendDecimal w) \<noteq> CHR ''[''"
proof -
  have b: "unat w < 256" using unsigned_less [of w] by simp
  have 1: "unat w div 100 < 16" using b by (simp add: less_mult_imp_div_less)
  have 2: "unat w div 10 mod 10 < 16"
    using mod_less_divisor [of 10 "unat w div 10"] by linarith
  have 3: "unat w mod 10 < 16"
    using mod_less_divisor [of 10 "unat w"] by linarith
  show ?thesis
    by (simp add: appendDecimal_def Let_def digits_no_bracket 1 2 3)
qed

lemma appendHex_hd: "appendHex x \<noteq> [] \<and> hd (appendHex x) \<noteq> CHR ''[''"
  by (simp add: appendHex_def digits_no_bracket)

lemma string4_hd: "string4 p \<noteq> [] \<and> hd (string4 p) \<noteq> CHR ''[''"
  using appendDecimal_hd [of "p ! 0"] by (simp add: string4_def)

lemma string6Loop_hd: "string6Loop ip z 0 \<noteq> [] \<and> hd (string6Loop ip z 0) \<noteq> CHR ''[''"
  using appendHex_hd [of "v6u16 ip 0"] by (simp add: string6Loop.simps [of ip z 0])

lemma IP_String_hd: "IP_String ip \<noteq> [] \<and> hd (IP_String ip) \<noteq> CHR ''[''"
  using string4_hd string6Loop_hd by (simp add: IP_String_def Let_def string6_def)

text \<open>The zero run chosen for the \<open>::\<close> is never empty.\<close>

lemma findZeros_inv:
  "fst z < snd z \<or> z = (255, 255) \<Longrightarrow>
   fst (findZeros ip i z) < snd (findZeros ip i z) \<or> findZeros ip i z = (255, 255)"
proof (induction ip i z rule: findZeros.induct)
  case (1 ip i z)
  show ?case
  proof (cases "i < 8")
    case True
    have "fst (zeroUpdate i (zeroRunEnd ip i) z) < snd (zeroUpdate i (zeroRunEnd ip i) z)
          \<or> zeroUpdate i (zeroRunEnd ip i) z = (255, 255)"
      using "1.prems" by (auto simp: zeroUpdate_def)
    from "1.IH" [OF True this] True show ?thesis
      by (simp add: findZeros.simps [of ip i z])
  next
    case False
    with "1.prems" show ?thesis by (simp add: findZeros.simps [of ip i z])
  qed
qed

subsection \<open>Textual forms of concrete addresses\<close>

lemma IP_String_10_0_0_5: "IP_String [10, 0, 0, 5] = ''10.0.0.5''"
  by (simp add: IP_String_def To4_def string4_def appendDecimal_def digits_def)

lemma IP_String_10_0_0_9: "IP_String [10, 0, 0, 9] = ''10.0.0.9''"
  by (simp add: IP_String_def To4_def string4_def appendDecimal_def digits_def)

lemma Itoa_4000: "Itoa 4000 = ''4000''"
  by (simp add: Itoa_def digits_def Uitoa.simps)

lemma Addr_String_10_0_0_5: "Addr_String (UDPAddr [10, 0, 0, 5] 4000 []) = ''10.0.0.5:4000''"
  by (simp add: ipPortString_def ipEmptyString_def IP_String_10_0_0_5 JoinHostPort_def Itoa_4000)

lemma IP_String_2001_db8_1:
  "IP_String [0x20, 0x01, 0x0d, 0xb8, 0, 0, 0, 0, 0, 0, 0, 0, 0, 0, 0, 1] = ''2001:db8::1''"
  by (simp add: IP_String_def To4_def isZeros_def string6_def v6u16_def zeroUpdate_def
      appendHex_def digits_def zeroRunEnd.simps findZeros.simps string6Loop.simps)

lemma Addr_String_2001_db8_1:
  "Addr_String (UDPAddr [0x20, 0x01, 0x0d, 0xb8, 0, 0, 0, 0, 0, 0, 0, 0, 0, 0, 0, 1] 4000 [])
     = ''[2001:db8::1]:4000''"
  by (simp add: ipPortString_def ipEmptyString_def IP_String_2001_db8_1 JoinHostPort_def Itoa_4000)

subsection \<open>The claims about the handler\<close>

text \<open>
  C1. For every client address and peer IP the handler does not panic and its decision
  is true exactly when the host component of the client address's textual form (the
  substring before the first colon) is equal, as a string, to the textual form of the
  peer IP; otherwise the decision is false. One line is logged either way.
\<close>

theorem PermissionHandler_iff_host_equal:
  "\<exists>line. PermissionHandler clientAddr peerIP lg =
     Inr (hostPart (Addr_String clientAddr) = IP_String peerIP, lg @ [line])"
  by (rule PermissionHandler_decision)

text \<open>The two cases of the spec: client 10.0.0.5:4000 with peer 10.0.0.5 and with peer 10.0.0.9.\<close>

theorem PermissionHandler_iff_host_equal_witness:
  "(\<exists>line. PermissionHandler (UDPAddr [10, 0, 0, 5] 4000 []) [10, 0, 0, 5] [] = Inr (True, [line])) \<and>
   (\<exists>line. PermissionHandler (UDPAddr [10, 0, 0, 5] 4000 []) [10, 0, 0, 9] [] = Inr (False, [line]))"
  using PermissionHandler_iff_host_equal [of "UDPAddr [10, 0, 0, 5] 4000 []" "[10, 0, 0, 5]" "[]"]
    PermissionHandler_iff_host_equal [of "UDPAddr [10, 0, 0, 5] 4000 []" "[10, 0, 0, 9]" "[]"]
  by (simp add: Addr_String_10_0_0_5 IP_String_10_0_0_5 IP_String_10_0_0_9 hostPart_def
      del: Addr_String.simps)

text \<open>
  C6. When the textual form of the client address contains no colon, the split gives
  the whole string as its only element and the decision is the comparison of that
  string with the peer IP's textual form. For every input the handler returns a
  decision (true or false): the index \<open>clientIP[0]\<close> is never out of range.
\<close>

theorem PermissionHandler_no_colon_total:
  "(CHR '':'' \<notin> set (Addr_String clientAddr) \<longrightarrow>
      SplitN (Addr_String clientAddr) '':'' 2 = [Addr_String clientAddr] \<and>
      (\<exists>line. PermissionHandler clientAddr peerIP lg =
         Inr (Addr_String clientAddr = IP_String peerIP, lg @ [line]))) \<and>
   (\<exists>decision lg'. PermissionHandler clientAddr peerIP lg = Inr (decision, lg'))"
proof -
  obtain line where l: "PermissionHandler clientAddr peerIP lg =
      Inr (hostPart (Addr_String clientAddr) = IP_String peerIP, lg @ [line])"
    using PermissionHandler_decision by blast
  have "hostPart (Addr_String clientAddr) = Addr_String clientAddr"
    if "CHR '':'' \<notin> set (Addr_String clientAddr)"
    using that by (simp add: hostPart_def takeWhile_all)
  with l show ?thesis by (auto simp: SplitN_no_colon)
qed

theorem PermissionHandler_no_colon_total_witness:
  "CHR '':'' \<notin> set (Addr_String (OtherAddr ''unix'' ''10.0.0.5'')) \<and>
   (\<exists>line. PermissionHandler (OtherAddr ''unix'' ''10.0.0.5'') [10, 0, 0, 5] [] = Inr (True, [line])) \<and>
   (\<exists>line. PermissionHandler (OtherAddr ''unix'' ''10.0.0.5'') [10, 0, 0, 9] [] = Inr (False, [line]))"
  using PermissionHandler_no_colon_total [of "OtherAddr ''unix'' ''10.0.0.5''" "[10, 0, 0, 5]" "[]"]
    PermissionHandler_no_colon_total [of "OtherAddr ''unix'' ''10.0.0.5''" "[10, 0, 0, 9]" "[]"]
  by (simp add: IP_String_10_0_0_5 IP_String_10_0_0_9)

text \<open>
  C9. When the textual form of the client address is a bracketed host and a port,
  \<open>[host]:port\<close>, the handler denies every peer IP: the text before the first colon
  begins with the bracket, and the textual form of an IP never does.
\<close>

theorem PermissionHandler_bracketed_denied:
  assumes "Addr_String clientAddr = ''['' @ host @ '']:'' @ port"
  shows "\<exists>line. PermissionHandler clientAddr peerIP lg = Inr (False, lg @ [line])"
proof -
  have "hostPart (Addr_String clientAddr) \<noteq> [] \<and> hd (hostPart (Addr_String clientAddr)) = CHR ''[''"
    using assms by (simp add: hostPart_def)
  with IP_String_hd [of peerIP] have "hostPart (Addr_String clientAddr) \<noteq> IP_String peerIP"
    by metis
  with PermissionHandler_decision [of clientAddr peerIP lg] show ?thesis by simp
qed

text \<open>The client 2001:db8::1, port 4000, is refused even its own address as peer.\<close>

theorem PermissionHandler_bracketed_denied_witness:
  "Addr_String (UDPAddr [0x20, 0x01, 0x0d, 0xb8, 0, 0, 0, 0, 0, 0, 0, 0, 0, 0, 0, 1] 4000 [])
     = ''['' @ ''2001:db8::1'' @ '']:'' @ ''4000'' \<and>
   (\<exists>line. PermissionHandler
      (UDPAddr [0x20, 0x01, 0x0d, 0xb8, 0, 0, 0, 0, 0, 0, 0, 0, 0, 0, 0, 1] 4000 [])
      [0x20, 0x01, 0x0d, 0xb8, 0, 0, 0, 0, 0, 0, 0, 0, 0, 0, 0, 1] [] = Inr (False, [line]))"
proof -
  have a: "Addr_String (UDPAddr [0x20, 0x01, 0x0d, 0xb8, 0, 0, 0, 0, 0, 0, 0, 0, 0, 0, 0, 1] 4000 [])
     = ''['' @ ''2001:db8::1'' @ '']:'' @ ''4000''"
    by (simp add: Addr_String_2001_db8_1 del: Addr_String.simps)
  from PermissionHandler_bracketed_denied [OF a, of _ "[]"] a show ?thesis by simp
qed

section \<open>Properties of the credential index\<close>

lemma allMatches_None: "doExecute s = None \<Longrightarrow> allMatches s = []"
  by (subst allMatches.simps) simp

lemma allMatches_Some:
  "doExecute s = Some (w1, w2, rest) \<Longrightarrow>
   allMatches s = [w1 @ ''='' @ w2, w1, w2] # allMatches rest"
  by (subst allMatches.simps) simp

lemma takeWhile_delim:
  "\<not> P d \<Longrightarrow> takeWhile P (a @ d # b) = takeWhile P a"
  by (induction a) auto

lemma dropWhile_delim:
  "\<not> P d \<Longrightarrow> dropWhile P (a @ d # b) = dropWhile P a @ d # b"
  by (induction a) auto

lemma matchAt_delim:
  assumes "\<not> isWord d" "d \<noteq> CHR ''=''"
  shows "matchAt (a @ d # b) =
         map_option (\<lambda>(w1, w2, rest). (w1, w2, rest @ d # b)) (matchAt a)"
proof -
  have tw: "takeWhile isWord (x @ d # y) = takeWhile isWord x" for x y
    using assms(1) by (rule takeWhile_delim)
  have dw: "dropWhile isWord (x @ d # y) = dropWhile isWord x @ d # y" for x y
    using assms(1) by (rule dropWhile_delim)
  show ?thesis
  proof (cases "dropWhile isWord a")
    case Nil
    have "matchAt a = None"
      unfolding matchAt_def Let_def Nil by simp
    moreover have "matchAt (a @ d # b) = None"
      unfolding matchAt_def Let_def dw Nil using assms by simp
    ultimately show ?thesis by simp
  next
    case (Cons c r2)
    show ?thesis
      unfolding matchAt_def Let_def dw tw Cons
      by (simp add: tw dw)
  qed
qed

lemma matchAt_nonword: "\<not> isWord d \<Longrightarrow> matchAt (d # b) = None"
  by (simp add: matchAt_def)

lemma doExecute_delim:
  assumes "\<not> isWord d" "d \<noteq> CHR ''=''"
  shows "doExecute (a @ d # b) =
         (case doExecute a of
            Some (w1, w2, rest) \<Rightarrow> Some (w1, w2, rest @ d # b)
          | None \<Rightarrow> doExecute b)"
proof (induction a)
  case Nil
  from assms show ?case by (simp add: matchAt_nonword)
next
  case (Cons x xs)
  show ?case
  proof (cases "matchAt (x # xs)")
    case None
    then have "matchAt (x # xs @ d # b) = None"
      using matchAt_delim [OF assms, of "x # xs" b] by simp
    with None Cons show ?thesis by simp
  next
    case (Some r)
    obtain w1 w2 rest where r: "r = (w1, w2, rest)" by (cases r) auto
    with Some have "matchAt (x # xs @ d # b) = Some (w1, w2, rest @ d # b)"
      using matchAt_delim [OF assms, of "x # xs" b] by simp
    with Some r show ?thesis by simp
  qed
qed

lemma allMatches_delim:
  assumes "\<not> isWord d" "d \<noteq> CHR ''=''"
  shows "allMatches (a @ d # b) = allMatches a @ allMatches b"
proof (induction a rule: allMatches.induct)
  case (1 s)
  show ?case
  proof (cases "doExecute s")
    case None
    then have e: "doExecute (s @ d # b) = doExecute b"
      by (simp add: doExecute_delim [OF assms])
    have "allMatches (s @ d # b) = allMatches b"
      by (subst allMatches.simps, subst (2) allMatches.simps) (simp only: e)
    with None show ?thesis by (simp add: allMatches_None)
  next
    case (Some r)
    then obtain w1 w2 rest where ex: "doExecute s = Some (w1, w2, rest)"
      by (cases r) auto
    then have "doExecute (s @ d # b) = Some (w1, w2, rest @ d # b)"
      by (simp add: doExecute_delim [OF assms])
    then have "allMatches (s @ d # b) = [w1 @ ''='' @ w2, w1, w2] # allMatches (rest @ d # b)"
      by (rule allMatches_Some)
    moreover have "allMatches (rest @ d # b) = allMatches rest @ allMatches b"
      by (rule "1.IH" [OF ex refl refl])
    moreover have "allMatches s = [w1 @ ''='' @ w2, w1, w2] # allMatches rest"
      using ex by (rule allMatches_Some)
    ultimately show ?thesis by simp
  qed
qed

lemma pairs_delim:
  "\<not> isWord d \<Longrightarrow> d \<noteq> CHR ''='' \<Longrightarrow> pairs (a @ d # b) = pairs a @ pairs b"
  by (simp add: pairs_def allMatches_delim)


lemma pairs_Nil: "pairs [] = []"
  by (simp add: pairs_def allMatches_None)

lemma isWord_comma: "\<not> isWord CHR '',''"
  by (simp add: isWord_def)

lemma pairs_commaList: "pairs (commaList es) = concat (map pairs es)"
proof (induction es rule: commaList.induct)
  case 1
  show ?case by (simp add: pairs_Nil)
next
  case (2 e)
  show ?case by simp
next
  case (3 e v va)
  have "pairs (e @ CHR '','' # commaList (v # va)) = pairs e @ pairs (commaList (v # va))"
    by (rule pairs_delim) (simp_all add: isWord_comma)
  with 3 show ?case by simp
qed

lemma takeWhile_word:
  "list_all isWord w \<Longrightarrow> b = [] \<or> \<not> isWord (hd b) \<Longrightarrow> takeWhile isWord (w @ b) = w"
  by (induction w) (auto simp: takeWhile_eq_Nil_iff intro: hd_in_set)

lemma dropWhile_word:
  "list_all isWord w \<Longrightarrow> b = [] \<or> \<not> isWord (hd b) \<Longrightarrow> dropWhile isWord (w @ b) = b"
  by (induction w) (auto simp: dropWhile_eq_self_iff)

lemma isWord_eq: "\<not> isWord CHR ''=''"
  by (simp add: isWord_def)

lemma matchAt_pair:
  assumes "wordToken w1" "wordToken w2" "b = [] \<or> \<not> isWord (hd b)"
  shows "matchAt (w1 @ ''='' @ w2 @ b) = Some (w1, w2, b)"
proof -
  have 1: "takeWhile isWord (w1 @ CHR ''='' # w2 @ b) = w1"
    using takeWhile_word [of w1 "CHR ''='' # w2 @ b"] assms(1) by (simp add: wordToken_def isWord_eq)
  have 2: "dropWhile isWord (w1 @ CHR ''='' # w2 @ b) = CHR ''='' # w2 @ b"
    using dropWhile_word [of w1 "CHR ''='' # w2 @ b"] assms(1) by (simp add: wordToken_def isWord_eq)
  have 3: "takeWhile isWord (w2 @ b) = w2" "dropWhile isWord (w2 @ b) = b"
    using takeWhile_word [of w2 b] dropWhile_word [of w2 b] assms(2,3) by (simp_all add: wordToken_def)
  from assms(1,2) have "w1 \<noteq> []" "w2 \<noteq> []" by (simp_all add: wordToken_def)
  then show ?thesis
    by (simp add: matchAt_def Let_def 1 2 3)
qed

lemma doExecute_pair:
  assumes "wordToken w1" "wordToken w2" "b = [] \<or> \<not> isWord (hd b)"
  shows "doExecute (w1 @ ''='' @ w2 @ b) = Some (w1, w2, b)"
proof -
  from assms(1) obtain c cs where w: "w1 = c # cs" by (cases w1) (auto simp: wordToken_def)
  have "matchAt (c # cs @ CHR ''='' # w2 @ b) = Some (w1, w2, b)"
    using matchAt_pair [OF assms] w by simp
  then show ?thesis using w by simp
qed

lemma pairs_pair:
  assumes "wordToken w1" "wordToken w2" "b = [] \<or> \<not> isWord (hd b)"
  shows "pairs (w1 @ ''='' @ w2 @ b) = (w1, w2) # pairs b"
  using allMatches_Some [OF doExecute_pair [OF assms]] by (simp add: pairs_def)

lemma allMatches_shape:
  "kv \<in> set (allMatches s) \<Longrightarrow> length kv = 3"
proof (induction s rule: allMatches.induct)
  case (1 s)
  show ?case
  proof (cases "doExecute s")
    case None
    with "1.prems" show ?thesis by (simp add: allMatches_None)
  next
    case (Some r)
    then obtain w1 w2 rest where ex: "doExecute s = Some (w1, w2, rest)"
      by (cases r) auto
    from "1.prems" have "kv = [w1 @ ''='' @ w2, w1, w2] \<or> kv \<in> set (allMatches rest)"
      by (simp add: allMatches_Some [OF ex])
    then show ?thesis
      using "1.IH" [OF ex refl refl] by auto
  qed
qed

lemma matchAt_rest: "matchAt t = Some (a, b, c) \<Longrightarrow> length c + 3 \<le> length t"
proof -
  assume m: "matchAt t = Some (a, b, c)"
  then obtain x r2 where d: "dropWhile isWord t = x # r2" and c: "c = dropWhile isWord r2"
      and a: "takeWhile isWord t \<noteq> []" and b: "takeWhile isWord r2 \<noteq> []"
    by (auto simp: matchAt_def Let_def split: if_splits list.splits)
  have "length t = length (takeWhile isWord t) + length (dropWhile isWord t)"
    by (metis length_append takeWhile_dropWhile_id)
  moreover have "length r2 = length (takeWhile isWord r2) + length (dropWhile isWord r2)"
    by (metis length_append takeWhile_dropWhile_id)
  moreover have "length (takeWhile isWord t) \<ge> 1" "length (takeWhile isWord r2) \<ge> 1"
    using a b by (simp_all add: Suc_le_eq)
  ultimately show ?thesis using d c by simp
qed

lemma doExecute_rest: "doExecute t = Some (a, b, c) \<Longrightarrow> length c + 3 \<le> length t"
proof (induction t)
  case Nil
  then show ?case by simp
next
  case (Cons x xs)
  show ?case
  proof (cases "matchAt (x # xs)")
    case None
    with Cons show ?thesis by simp
  next
    case (Some r)
    with Cons.prems have "matchAt (x # xs) = Some (a, b, c)" by simp
    then show ?thesis by (rule matchAt_rest)
  qed
qed

lemma length_allMatches: "length (allMatches s) \<le> length s"
proof (induction s rule: allMatches.induct)
  case (1 s)
  show ?case
  proof (cases "doExecute s")
    case None
    then show ?thesis by (simp add: allMatches_None)
  next
    case (Some r)
    then obtain w1 w2 rest where ex: "doExecute s = Some (w1, w2, rest)"
      by (cases r) auto
    from "1.IH" [OF ex refl refl] doExecute_rest [OF ex] show ?thesis
      by (simp add: allMatches_Some [OF ex])
  qed
qed

lemma FindAll_all: "FindAllStringSubmatch s (- 1) = allMatches s"
  using length_allMatches [of s] by (simp add: FindAllStringSubmatch_def)

lemma usersMapLoop_Inr:
  "\<forall>kv\<in>set kvs. length kv = 3 \<Longrightarrow>
   usersMapLoop G realm kvs m =
     Inr (m ++ map_of (rev (map (\<lambda>kv. (kv ! 1, G (kv ! 1) realm (kv ! 2))) kvs)))"
proof (induction kvs arbitrary: m)
  case Nil
  show ?case by simp
next
  case (Cons kv kvs)
  then have "length kv = 3" by simp
  then have i: "index kv (Suc 0) = Inr (kv ! Suc 0)" "index kv 2 = Inr (kv ! 2)"
    by (simp_all add: index_def)
  have "usersMapLoop G realm (kv # kvs) m =
        usersMapLoop G realm kvs (m(kv ! 1 \<mapsto> G (kv ! 1) realm (kv ! 2)))"
    by (simp add: i)
  also have "\<dots> = Inr (m(kv ! 1 \<mapsto> G (kv ! 1) realm (kv ! 2)) ++
        map_of (rev (map (\<lambda>kv. (kv ! 1, G (kv ! 1) realm (kv ! 2))) kvs)))"
    using Cons by simp
  finally show ?case
    by (auto simp: map_add_def fun_eq_iff split: option.splits)
qed


lemma usersMapBuild_eq:
  "usersMapBuild G users realm =
     Inr (map_of (rev (map (\<lambda>(u, p). (u, G u realm p)) (pairs users))))"
proof -
  have "\<forall>kv\<in>set (allMatches users). length kv = 3"
    by (simp add: allMatches_shape)
  then have "usersMapLoop G realm (allMatches users) Map.empty =
     Inr (Map.empty ++ map_of (rev (map (\<lambda>kv. (kv ! 1, G (kv ! 1) realm (kv ! 2))) (allMatches users))))"
    by (rule usersMapLoop_Inr)
  moreover have "map (\<lambda>kv. (kv ! 1, G (kv ! 1) realm (kv ! 2))) (allMatches users) =
      map (\<lambda>(u, p). (u, G u realm p)) (pairs users)"
    by (simp add: pairs_def)
  ultimately show ?thesis
    by (simp add: usersMapBuild_def FindAll_all)
qed

lemma map_of_rev_last:
  "map_of (rev (map (\<lambda>(u, p). (u, f u p)) ps)) u =
     (if map snd (filter (\<lambda>p. fst p = u) ps) = [] then None
      else Some (f u (last (map snd (filter (\<lambda>p. fst p = u) ps)))))"
proof (induction ps rule: rev_induct)
  case Nil
  show ?case by simp
next
  case (snoc x xs)
  obtain k v where x: "x = (k, v)" by (cases x) auto
  show ?case using snoc by (simp add: x)
qed

lemma usersMapBuild_lookup:
  "\<exists>m. usersMapBuild G users realm = Inr m \<and>
       (\<forall>u. m u = (if passwordsOf users u = [] then None
                    else Some (G u realm (last (passwordsOf users u)))))"
  by (simp add: usersMapBuild_eq map_of_rev_last passwordsOf_def)

lemma passwordsOf_empty_iff: "passwordsOf users u = [] \<longleftrightarrow> u \<notin> fst ` set (pairs users)"
  by (auto simp: passwordsOf_def filter_empty_conv image_iff)

lemma last_passwordsOf:
  "passwordsOf users u \<noteq> [] \<Longrightarrow> (u, last (passwordsOf users u)) \<in> set (pairs users)"
proof -
  assume "passwordsOf users u \<noteq> []"
  then have "last (passwordsOf users u) \<in> set (passwordsOf users u)" by simp
  then show ?thesis by (auto simp: passwordsOf_def)
qed

lemma usersMapBuild_dom:
  "\<exists>m. usersMapBuild G users realm = Inr m \<and>
       dom m = fst ` set (pairs users) \<and>
       (\<forall>u\<in>dom m. \<exists>p. (u, p) \<in> set (pairs users) \<and> m u = Some (G u realm p))"
proof -
  obtain m where m: "usersMapBuild G users realm = Inr m"
    and l: "\<And>u. m u = (if passwordsOf users u = [] then None
                    else Some (G u realm (last (passwordsOf users u))))"
    using usersMapBuild_lookup [of G users realm] by blast
  have d: "dom m = fst ` set (pairs users)"
    using l passwordsOf_empty_iff [of users] by (auto simp: dom_def)
  have "\<exists>p. (u, p) \<in> set (pairs users) \<and> m u = Some (G u realm p)" if "u \<in> dom m" for u
  proof -
    from that l [of u] have ne: "passwordsOf users u \<noteq> []" by (auto simp: dom_def split: if_splits)
    with l [of u] last_passwordsOf [OF ne] show ?thesis by auto
  qed
  with m d show ?thesis by blast
qed

lemma doExecute_foo_eq: "doExecute ''foo='' = None"
  by (simp add: matchAt_def isWord_def)

lemma doExecute_eq_bar: "doExecute ''=bar'' = None"
  by (simp add: matchAt_def isWord_def)

lemma doExecute_foo: "doExecute ''foo'' = None"
  by (simp add: matchAt_def isWord_def)

lemma pairs_malformed: "pairs ''foo='' = [] \<and> pairs ''=bar'' = [] \<and> pairs ''foo'' = []"
  using allMatches_None [OF doExecute_foo_eq] allMatches_None [OF doExecute_eq_bar]
    allMatches_None [OF doExecute_foo]
  by (simp add: pairs_def)

lemma pairs_single: "wordToken w1 \<Longrightarrow> wordToken w2 \<Longrightarrow> pairs (w1 @ ''='' @ w2) = [(w1, w2)]"
  using pairs_pair [of w1 w2 "[]"] by (simp add: pairs_Nil)


text \<open>
  C3. For every configuration string the build of the credential index does not fail,
  and the index holds exactly the usernames of the matches of the pattern (a token of
  word characters, \<open>=\<close>, a second token of word characters), each with the key derived
  from that username, the realm and one of the passwords matched with it. In a
  comma-separated list every entry contributes its own matches and nothing else: an
  entry of the shape gives its pair, and the entries \<open>foo=\<close>, \<open>=bar\<close> and \<open>foo\<close>, in which
  the pattern does not occur, give nothing.
\<close>

theorem usersMapBuild_matches_only:
  "(\<exists>m. usersMapBuild G users realm = Inr m \<and>
        dom m = fst ` set (pairs users) \<and>
        (\<forall>u\<in>dom m. \<exists>p. (u, p) \<in> set (pairs users) \<and> m u = Some (G u realm p))) \<and>
   pairs (commaList es) = concat (map pairs es) \<and>
   (wordToken w1 \<and> wordToken w2 \<longrightarrow> pairs (w1 @ ''='' @ w2) = [(w1, w2)]) \<and>
   pairs ''foo='' = [] \<and> pairs ''=bar'' = [] \<and> pairs ''foo'' = []"
  using usersMapBuild_dom [of G users realm] pairs_commaList [of es] pairs_single [of w1 w2]
    pairs_malformed
  by blast

lemma wordToken_user: "wordToken ''user''"
  by (simp add: wordToken_def isWord_def)

lemma wordToken_pass: "wordToken ''pass''"
  by (simp add: wordToken_def isWord_def)

text \<open>The list \<open>user=pass,foo=,=bar,foo\<close> gives the index with the single user \<open>user\<close>.\<close>

theorem usersMapBuild_matches_only_witness:
  "wordToken ''user'' \<and> wordToken ''pass'' \<and>
   (\<forall>G realm. \<exists>m.
      usersMapBuild G (commaList [''user=pass'', ''foo='', ''=bar'', ''foo'']) realm = Inr m \<and>
      dom m = {''user''} \<and> m ''user'' = Some (G ''user'' realm ''pass''))"
proof -
  have p: "pairs (commaList [''user=pass'', ''foo='', ''=bar'', ''foo'']) = [(''user'', ''pass'')]"
    using usersMapBuild_matches_only [of _ _ _ "[''user=pass'', ''foo='', ''=bar'', ''foo'']" "''user''" "''pass''"]
      wordToken_user wordToken_pass
    by simp
  have "\<exists>m. usersMapBuild G (commaList [''user=pass'', ''foo='', ''=bar'', ''foo'']) realm = Inr m \<and>
      dom m = {''user''} \<and> m ''user'' = Some (G ''user'' realm ''pass'')" for G realm
    using usersMapBuild_matches_only
      [of G "commaList [''user=pass'', ''foo='', ''=bar'', ''foo'']" realm "[]" "[]" "[]"]
    unfolding p by fastforce
  with wordToken_user wordToken_pass show ?thesis by blast
qed


text \<open>
  C5. The lookup reports found exactly when the username is a key of the map; for a
  key it returns the stored key and true, for an absent username the nil key and false.
  For the map built from a configuration string, found holds exactly for the usernames
  of the matched pairs.
\<close>

theorem AuthHandler_found_iff_present:
  "(snd (AuthHandler usersMap username realm srcAddr) \<longleftrightarrow> username \<in> dom usersMap) \<and>
   (\<forall>key. usersMap username = Some key \<longrightarrow>
      AuthHandler usersMap username realm srcAddr = (key, True)) \<and>
   (usersMap username = None \<longrightarrow>
      AuthHandler usersMap username realm srcAddr = ([], False)) \<and>
   (\<forall>G users m. usersMapBuild G users realm = Inr m \<longrightarrow>
      (snd (AuthHandler m username realm srcAddr) \<longleftrightarrow> username \<in> fst ` set (pairs users)))"
proof -
  have f: "snd (AuthHandler m username realm srcAddr) \<longleftrightarrow> username \<in> dom m" for m
    by (auto simp: AuthHandler_def split: option.splits)
  have "snd (AuthHandler m username realm srcAddr) \<longleftrightarrow> username \<in> fst ` set (pairs users)"
    if b: "usersMapBuild G users realm = Inr m" for G users m
  proof -
    obtain m' where "usersMapBuild G users realm = Inr m'" and "dom m' = fst ` set (pairs users)"
      using usersMapBuild_dom [of G users realm] by blast
    with b have "dom m = fst ` set (pairs users)" by simp
    with f [of m] show ?thesis by simp
  qed
  moreover have "AuthHandler usersMap username realm srcAddr = (key, True)"
    if "usersMap username = Some key" for key
    using that by (simp add: AuthHandler_def)
  moreover have "AuthHandler usersMap username realm srcAddr = ([], False)"
    if "usersMap username = None"
    using that by (simp add: AuthHandler_def)
  ultimately show ?thesis using f [of usersMap] by blast
qed

lemma pairs_user_pass: "pairs ''user=pass'' = [(''user'', ''pass'')]"
  using pairs_single [OF wordToken_user wordToken_pass] by simp

text \<open>With the index of \<open>user=pass\<close>: \<open>user\<close> is found, \<open>nonexistent\<close> is not.\<close>

theorem AuthHandler_found_iff_present_witness:
  "\<forall>G realm srcAddr. \<exists>m.
     usersMapBuild G ''user=pass'' realm = Inr m \<and>
     m ''user'' = Some (G ''user'' realm ''pass'') \<and>
     AuthHandler m ''user'' realm srcAddr = (G ''user'' realm ''pass'', True) \<and>
     m ''nonexistent'' = None \<and>
     AuthHandler m ''nonexistent'' realm srcAddr = ([], False)"
proof (intro allI)
  fix G :: keygen and realm :: string and srcAddr :: Addr
  obtain m where m: "usersMapBuild G ''user=pass'' realm = Inr m"
    and l: "\<And>u. m u = (if passwordsOf ''user=pass'' u = [] then None
                    else Some (G u realm (last (passwordsOf ''user=pass'' u))))"
    using usersMapBuild_lookup [of G "''user=pass''" realm] by blast
  have 1: "m ''user'' = Some (G ''user'' realm ''pass'')"
    using l [of "''user''"] by (simp add: passwordsOf_def pairs_user_pass)
  have 2: "m ''nonexistent'' = None"
    using l [of "''nonexistent''"] by (simp add: passwordsOf_def pairs_user_pass)
  from AuthHandler_found_iff_present [of m "''user''" realm srcAddr] 1
  have 3: "AuthHandler m ''user'' realm srcAddr = (G ''user'' realm ''pass'', True)" by blast
  from AuthHandler_found_iff_present [of m "''nonexistent''" realm srcAddr] 2
  have 4: "AuthHandler m ''nonexistent'' realm srcAddr = ([], False)" by blast
  from m 1 2 3 4
  show "\<exists>m. usersMapBuild G ''user=pass'' realm = Inr m \<and>
     m ''user'' = Some (G ''user'' realm ''pass'') \<and>
     AuthHandler m ''user'' realm srcAddr = (G ''user'' realm ''pass'', True) \<and>
     m ''nonexistent'' = None \<and>
     AuthHandler m ''nonexistent'' realm srcAddr = ([], False)"
    by blast
qed

text \<open>
  C7. A username that is matched in the configuration string is mapped to the key
  derived from the password of its last matched pair in the string (last write wins);
  a username that is not matched has no entry.
\<close>

theorem usersMapBuild_last_write_wins:
  "\<exists>m. usersMapBuild G users realm = Inr m \<and>
       (\<forall>u. m u = (if passwordsOf users u = [] then None
                    else Some (G u realm (last (passwordsOf users u)))))"
  by (rule usersMapBuild_lookup)

lemma wordToken_a: "wordToken ''a''"
  by (simp add: wordToken_def isWord_def)

lemma wordToken_b: "wordToken ''b''"
  by (simp add: wordToken_def isWord_def)

lemma wordToken_c: "wordToken ''c''"
  by (simp add: wordToken_def isWord_def)

lemma pairs_a_b_a_c: "pairs ''a=b,a=c'' = [(''a'', ''b''), (''a'', ''c'')]"
proof -
  have "pairs ''a=b,a=c'' = pairs ''a=b'' @ pairs ''a=c''"
    using pairs_commaList [of "[''a=b'', ''a=c'']"] by simp
  moreover have "pairs ''a=b'' = [(''a'', ''b'')]"
    using pairs_single [OF wordToken_a wordToken_b] by simp
  moreover have "pairs ''a=c'' = [(''a'', ''c'')]"
    using pairs_single [OF wordToken_a wordToken_c] by simp
  ultimately show ?thesis by simp
qed

text \<open>In \<open>a=b,a=c\<close> the user \<open>a\<close> gets the key of the password \<open>c\<close>.\<close>

theorem usersMapBuild_last_write_wins_witness:
  "passwordsOf ''a=b,a=c'' ''a'' = [''b'', ''c''] \<and>
   (\<forall>G realm. \<exists>m. usersMapBuild G ''a=b,a=c'' realm = Inr m \<and>
      m ''a'' = Some (G ''a'' realm ''c''))"
proof -
  have p: "passwordsOf ''a=b,a=c'' ''a'' = [''b'', ''c'']"
    by (simp add: passwordsOf_def pairs_a_b_a_c)
  have "\<exists>m. usersMapBuild G ''a=b,a=c'' realm = Inr m \<and> m ''a'' = Some (G ''a'' realm ''c'')"
    for G realm
    using usersMapBuild_last_write_wins [of G "''a=b,a=c''" realm] p by auto
  with p show ?thesis by blast
qed

lemma pairs_skip: "list_all (\<lambda>c. \<not> isWord c) ds \<Longrightarrow> pairs (ds @ rest) = pairs rest"
proof (induction ds)
  case Nil
  show ?case by simp
next
  case (Cons d ds)
  then have "doExecute (d # ds @ rest) = doExecute (ds @ rest)"
    by (simp add: matchAt_nonword)
  then have "allMatches (d # ds @ rest) = allMatches (ds @ rest)"
    by (subst allMatches.simps, subst (2) allMatches.simps) (simp only:)
  with Cons show ?case by (simp add: pairs_def)
qed

text \<open>
  C10. A pair \<open>w1=w2\<close> of two word tokens is matched and inserted wherever it stands: at
  the start of the string or behind any character \<open>d\<close> that is neither a word character
  nor \<open>=\<close> (a comma is one such character among many), and whatever follows it, as long
  as the second token ends there (the end of the string or a character that is not a
  word character, such as a second \<open>=\<close>). The matches before and behind it are those of
  the two parts on their own. Pairs that follow one another are all matched, whatever
  characters other than word characters stand between them.
\<close>

theorem allMatches_any_delimiter:
  assumes "wordToken w1" and "wordToken w2"
    and "\<not> isWord d" and "d \<noteq> CHR ''=''"
    and "b = [] \<or> \<not> isWord (hd b)"
  shows "pairs (a @ d # w1 @ ''='' @ w2 @ b) = pairs a @ (w1, w2) # pairs b \<and>
         pairs (w1 @ ''='' @ w2 @ b) = (w1, w2) # pairs b \<and>
         (ds \<noteq> [] \<and> list_all (\<lambda>c. \<not> isWord c) ds \<longrightarrow>
            pairs (w1 @ ''='' @ w2 @ ds @ rest) = (w1, w2) # pairs rest) \<and>
         (\<exists>m. usersMapBuild G (a @ d # w1 @ ''='' @ w2 @ b) realm = Inr m \<and> w1 \<in> dom m)"
proof -
  have 1: "pairs (w1 @ ''='' @ w2 @ b) = (w1, w2) # pairs b"
    using assms(1,2,5) by (rule pairs_pair)
  have 2: "pairs (a @ d # w1 @ ''='' @ w2 @ b) = pairs a @ (w1, w2) # pairs b"
    using pairs_delim [OF assms(3,4), of a "w1 @ ''='' @ w2 @ b"] 1 by simp
  obtain m where "usersMapBuild G (a @ d # w1 @ ''='' @ w2 @ b) realm = Inr m"
    and "dom m = fst ` set (pairs (a @ d # w1 @ ''='' @ w2 @ b))"
    using usersMapBuild_dom [of G "a @ d # w1 @ ''='' @ w2 @ b" realm] by blast
  with 2 have 3: "usersMapBuild G (a @ d # w1 @ ''='' @ w2 @ b) realm = Inr m \<and> w1 \<in> dom m"
    by simp
  have 4: "pairs (w1 @ ''='' @ w2 @ ds @ rest) = (w1, w2) # pairs rest"
    if "ds \<noteq> []" and n: "list_all (\<lambda>c. \<not> isWord c) ds"
  proof -
    from that obtain c cs where "ds = c # cs" and "\<not> isWord c" by (cases ds) auto
    then have "ds @ rest = [] \<or> \<not> isWord (hd (ds @ rest))" by simp
    with assms(1,2) have "pairs (w1 @ ''='' @ w2 @ ds @ rest) = (w1, w2) # pairs (ds @ rest)"
      by (rule pairs_pair)
    with pairs_skip [OF n] show ?thesis by simp
  qed
  from 1 2 3 4 show ?thesis by blast
qed

lemma wordToken_x: "wordToken ''x''"
  by (simp add: wordToken_def isWord_def)

lemma wordToken_y: "wordToken ''y''"
  by (simp add: wordToken_def isWord_def)

lemma wordToken_1: "wordToken ''1''"
  by (simp add: wordToken_def isWord_def)

lemma wordToken_2: "wordToken ''2''"
  by (simp add: wordToken_def isWord_def)

lemma pairs_eq_z: "pairs ''=z'' = []"
proof -
  have "doExecute ''=z'' = None" by (simp add: matchAt_def isWord_def)
  then show ?thesis by (simp add: pairs_def allMatches_None)
qed

text \<open>In \<open>x=1;y=2=z\<close> both \<open>x=1\<close> and \<open>y=2\<close> are matched; no comma is involved.\<close>

theorem allMatches_any_delimiter_witness:
  "wordToken ''y'' \<and> wordToken ''2'' \<and> \<not> isWord CHR '';'' \<and> CHR '';'' \<noteq> CHR ''='' \<and>
   \<not> isWord (hd ''=z'') \<and>
   pairs ''x=1;y=2=z'' = [(''x'', ''1''), (''y'', ''2'')] \<and>
   pairs ''y=2=;x=1'' = [(''y'', ''2''), (''x'', ''1'')] \<and>
   (\<forall>G realm. \<exists>m. usersMapBuild G ''x=1;y=2=z'' realm = Inr m \<and> ''y'' \<in> dom m)"
proof -
  have d: "\<not> isWord CHR '';''" "CHR '';'' \<noteq> CHR ''=''" "''=z'' = [] \<or> \<not> isWord (hd ''=z'')"
    by (simp_all add: isWord_def)
  have x: "pairs ''x=1'' = [(''x'', ''1'')]"
    using pairs_single [OF wordToken_x wordToken_1] by simp
  note t = allMatches_any_delimiter [OF wordToken_y wordToken_2 d, of "''x=1''"]
  from t [of "[]" "[]" "\<lambda>u r p. []" "[]"]
  have p: "pairs ''x=1;y=2=z'' = [(''x'', ''1''), (''y'', ''2'')]"
    by (simp add: x pairs_eq_z)
  have e: "''=;'' \<noteq> [] \<and> list_all (\<lambda>c. \<not> isWord c) ''=;''"
    by (simp add: isWord_def)
  from t [of "''=;''" "''x=1''" "\<lambda>u r p. []" "[]"] e
  have q: "pairs ''y=2=;x=1'' = [(''y'', ''2''), (''x'', ''1'')]"
    by (simp add: x)
  have "\<exists>m. usersMapBuild G ''x=1;y=2=z'' realm = Inr m \<and> ''y'' \<in> dom m" for G realm
    using t [of "[]" "[]" G realm] by simp
  with p q d wordToken_y wordToken_2 show ?thesis by simp
qed

section \<open>Properties of the Binding responder\<close>

lemma u16_be16: "u16 (be16 w) = w"
  unfolding u16_def be16_def
  by (rule bit_word_eqI) (auto simp: bit_simps)

lemma u32_be32: "u32 (be32 w) = w"
  unfolding u32_def be32_def
  apply (rule bit_word_eqI)
  apply (auto simp: bit_simps)
  subgoal for n by (cases "16 \<le> n") simp_all
  subgoal for n by (cases "16 \<le> n"; cases "24 \<le> n") simp_all
  done

lemma length_be16: "length (be16 w) = 2"
  by (simp add: be16_def)

lemma length_be32: "length (be32 w) = 4"
  by (simp add: be32_def)

lemma port_roundtrip:
  "uint (((word_of_int port :: 16 word) XOR 0x2112) XOR 0x2112) = port mod 65536"
proof -
  have "((word_of_int port :: 16 word) XOR 0x2112) XOR 0x2112 = word_of_int port"
    by (simp add: xor.assoc)
  then show ?thesis by (simp add: uint_word_of_int take_bit_eq_mod)
qed

lemma xorBytes_involution:
  "length a \<le> length k \<Longrightarrow> xorBytes (xorBytes a k) k = a"
proof (induction a arbitrary: k)
  case Nil
  show ?case by (simp add: xorBytes_def)
next
  case (Cons x xs)
  then obtain y ys where k: "k = y # ys" by (cases k) auto
  with Cons show ?case by (simp add: xorBytes_def xor.assoc)
qed

lemma length_xorBytes: "length (xorBytes a k) = min (length a) (length k)"
  by (simp add: xorBytes_def)

lemma MessageType_Value_BindingSuccess: "MessageType_Value BindingSuccess = 0x0101"
  by (simp add: MessageType_Value_def BindingSuccess_def)


lemma attrsRaw_Add:
  "attrsRaw (Add m t v) = attrsRaw m @ encodeAttr \<lparr>AttrType = t, Value = v\<rparr>"
  by (simp add: attrsRaw_def Add_def)

lemma encodeAttr_fingerprint:
  "encodeAttr \<lparr>AttrType = AttrFingerprint, Value = be32 x\<rparr> =
     be16 AttrFingerprint @ be16 4 @ be32 x"
  by (simp add: encodeAttr_def length_be32 nearestPaddedValueLength_def)

lemma Raw_Add_fingerprint:
  "Raw (Add m AttrFingerprint (be32 x)) =
     RawWithLength m (length (attrsRaw m) + 8) @ be16 AttrFingerprint @ be16 4 @ be32 x"
  by (simp add: Raw_def RawWithLength_def attrsRaw_Add encodeAttr_fingerprint
      length_be16 length_be32 Add_def attrsRaw_def)

lemma find_snoc:
  "find P (xs @ [a]) = (case find P xs of None \<Rightarrow> (if P a then Some a else None) | Some x \<Rightarrow> Some x)"
  by (induction xs) auto

lemma Get_Add_new: "Get m t = None \<Longrightarrow> Get (Add m t v) t = Some v"
  by (simp add: Get_def Add_def find_snoc split: option.splits)

lemma Get_Add_old: "Get m t = Some v \<Longrightarrow> Get (Add m t' v') t = Some v"
  by (auto simp: Get_def Add_def find_snoc split: option.splits)

lemma Fingerprint_Check_AddTo:
  assumes "Get m AttrFingerprint = None" and "Fingerprint_AddTo m = Inr m'"
  shows "Fingerprint_Check m'"
proof -
  let ?x = "FingerprintValue (RawWithLength m (length (attrsRaw m) + 8))"
  from assms(2) have m': "m' = Add m AttrFingerprint (be32 ?x)"
    by (simp add: Fingerprint_AddTo_def)
  have g: "Get m' AttrFingerprint = Some (be32 ?x)"
    unfolding m' using assms(1) by (rule Get_Add_new)
  have r: "Raw m' = RawWithLength m (length (attrsRaw m) + 8) @ be16 AttrFingerprint @ be16 4 @ be32 ?x"
    unfolding m' by (rule Raw_Add_fingerprint)
  have "take (length (Raw m') - 8) (Raw m') = RawWithLength m (length (attrsRaw m) + 8)"
    unfolding r by (simp add: length_be16 length_be32)
  with g show ?thesis
    by (simp add: Fingerprint_Check_def length_be32 u32_be32)
qed

lemma XORMappedAddress_AddTo_ok:
  "XORMappedAddress_AddTo ip port m =
     Inr (Add m AttrXORMappedAddress
            (be16 (if length ip = 4 then 0x01 else 0x02) @
             be16 (word_of_int port XOR 0x2112) @ xorBytes ip (xorValue m)))"
  by (simp add: XORMappedAddress_AddTo_def)

lemma AddrIPPort_Inr:
  "AddrIPPort a = Inr (ip, port) \<Longrightarrow> (length ip = 4 \<or> length ip = 16) \<and> 0 \<le> port \<and> port < 65536"
  by (cases a) (auto simp: wellFormed_def split: if_splits)

lemma length_xorValue: "length (TransactionID m) = 12 \<Longrightarrow> length (xorValue m) = 16"
  by (simp add: xorValue_def length_be32)

lemma GetFrom_value:
  assumes v: "Get m AttrXORMappedAddress =
      Some (be16 (if length a = 4 then 0x01 else 0x02) @
            be16 (word_of_int port XOR 0x2112) @ xorBytes a (xorValue m))"
    and a: "length a = 4 \<or> length a = 16"
    and t: "length (TransactionID m) = 12"
  shows "XORMappedAddress_GetFrom m = Some (a, port mod 65536)"
proof -
  let ?f = "if length a = 4 then 0x01 else 0x02 :: 16 word"
  let ?v = "be16 ?f @ be16 (word_of_int port XOR 0x2112) @ xorBytes a (xorValue m)"
  have lx: "length (xorBytes a (xorValue m)) = length a"
    using a by (auto simp: length_xorBytes length_xorValue [OF t])
  have 1: "take 2 ?v = be16 ?f" by (simp add: length_be16)
  have 2: "take 2 (drop 2 ?v) = be16 (word_of_int port XOR 0x2112)" by (simp add: length_be16)
  have 3: "drop 4 ?v = xorBytes a (xorValue m)" by (simp add: length_be16)
  have 4: "\<not> length ?v \<le> 4" using a lx by (auto simp: length_be16)
  have 5: "xorBytes (xorBytes a (xorValue m)) (xorValue m) = a"
    using a by (intro xorBytes_involution) (auto simp: length_xorValue [OF t])
  have 6: "uint (u16 (be16 (word_of_int port XOR 0x2112)) XOR 0x2112) = port mod 65536"
    unfolding u16_be16 by (rule port_roundtrip)
  have 7: "\<not> (if ?f = 0x02 then 16 else 4 :: nat) < length (xorBytes a (xorValue m))"
    using a lx by auto
  have 8: "\<not> (?f \<noteq> 0x02 \<and> ?f \<noteq> 0x01)" by simp
  show ?thesis
    unfolding XORMappedAddress_GetFrom_def v option.case Let_def 1 2 3 u16_be16
    using 4 5 6 7 8 by (simp only: if_False if_True u16_be16) 
qed


lemma AttrTypes_distinct: "AttrXORMappedAddress \<noteq> AttrFingerprint"
  by (simp add: AttrXORMappedAddress_def AttrFingerprint_def)

lemma Build_buildMsg:
  "Build (buildMsg t ty additional) =
     applySetters additional \<lparr>Type = ty, TransactionID = t, Attributes = []\<rparr>"
  by (simp add: Build_def buildMsg_def)

lemma Build_response:
  assumes ip: "length ip = 4 \<or> length ip = 16" and t: "length t = 12"
  shows "\<exists>msg. Build (buildMsg t BindingSuccess [XORMappedAddress ip port, Fingerprint]) = Inr msg \<and>
      TransactionID msg = t \<and> Type msg = BindingSuccess \<and>
      map AttrType (Attributes msg) = [AttrXORMappedAddress, AttrFingerprint] \<and>
      XORMappedAddress_GetFrom msg = Some (ip, port mod 65536) \<and>
      Fingerprint_Check msg"
proof -
  let ?m0 = "\<lparr>Type = BindingSuccess, TransactionID = t, Attributes = []\<rparr>"
  let ?v = "be16 (if length ip = 4 then 0x01 else 0x02) @
            be16 (word_of_int port XOR 0x2112) @ xorBytes ip (xorValue ?m0)"
  let ?m1 = "Add ?m0 AttrXORMappedAddress ?v"
  let ?x = "FingerprintValue (RawWithLength ?m1 (length (attrsRaw ?m1) + 8))"
  let ?m2 = "Add ?m1 AttrFingerprint (be32 ?x)"
  have a1: "XORMappedAddress_AddTo ip port ?m0 = Inr ?m1"
    by (rule XORMappedAddress_AddTo_ok)
  have a2: "Fingerprint_AddTo ?m1 = Inr ?m2"
    by (simp add: Fingerprint_AddTo_def)
  have b: "Build (buildMsg t BindingSuccess [XORMappedAddress ip port, Fingerprint]) = Inr ?m2"
    unfolding Build_buildMsg by (simp add: a1 a2)
  have g0: "Get ?m0 AttrXORMappedAddress = None" by (simp add: Get_def)
  have g1: "Get ?m1 AttrXORMappedAddress = Some ?v"
    using g0 by (rule Get_Add_new)
  have g2: "Get ?m2 AttrXORMappedAddress = Some ?v"
    using g1 by (rule Get_Add_old)
  have f1: "Get ?m1 AttrFingerprint = None"
    using AttrTypes_distinct by (simp add: Get_def Add_def)
  have x: "xorValue ?m2 = xorValue ?m0" by (simp add: xorValue_def Add_def)
  have tid: "TransactionID ?m2 = t" by (simp add: Add_def)
  have c1: "XORMappedAddress_GetFrom ?m2 = Some (ip, port mod 65536)"
  proof (rule GetFrom_value)
    show "Get ?m2 AttrXORMappedAddress =
      Some (be16 (if length ip = 4 then 0x01 else 0x02) @
            be16 (word_of_int port XOR 0x2112) @ xorBytes ip (xorValue ?m2))"
      unfolding x by (rule g2)
    show "length ip = 4 \<or> length ip = 16" by (rule ip)
    show "length (TransactionID ?m2) = 12" unfolding tid by (rule t)
  qed
  have c2: "Fingerprint_Check ?m2"
    using f1 a2 by (rule Fingerprint_Check_AddTo)
  have c3: "Type ?m2 = BindingSuccess" by (simp add: Add_def)
  have c4: "map AttrType (Attributes ?m2) = [AttrXORMappedAddress, AttrFingerprint]"
    by (simp add: Add_def)
  show ?thesis
    by (rule exI [of _ ?m2]) (simp only: b tid c1 c2 c3 c4 simp_thms)
qed

lemma Raw_header:
  "length (TransactionID msg) = 12 \<Longrightarrow>
   take 2 (Raw msg) = be16 (MessageType_Value (Type msg)) \<and>
   take 4 (drop 4 (Raw msg)) = be32 magicCookie \<and>
   take 12 (drop 8 (Raw msg)) = TransactionID msg"
  by (simp add: Raw_def RawWithLength_def length_be16 length_be32)

lemma Handle_Inl:
  "AddrIPPort (SrcAddr r) = Inl err \<Longrightarrow>
   Handle r m = (Some err,
      r\<lparr>Log := Log r @ [''received BindingRequest from '' @ Addr_String (SrcAddr r)]\<rparr>)"
  by (simp add: Handle_def handleBindingRequest_def)


lemma Handle_Inr_fail:
  assumes "AddrIPPort (SrcAddr r) = Inr (ip, port)"
    and "Build (buildMsg (TransactionID m) BindingSuccess [XORMappedAddress ip port, Fingerprint])
          = Inl err"
  shows "Handle r m = (Some err,
      r\<lparr>Log := Log r @ [''received BindingRequest from '' @ Addr_String (SrcAddr r)]\<rparr>)"
  using assms by (simp add: Handle_def handleBindingRequest_def buildAndSend_def)

lemma Handle_Inr_ok:
  assumes "AddrIPPort (SrcAddr r) = Inr (ip, port)"
    and "Build (buildMsg (TransactionID m) BindingSuccess [XORMappedAddress ip port, Fingerprint])
          = Inr msg"
  shows "Handle r m = (writeResult (Conn r),
      r\<lparr>Log := Log r @ [''received BindingRequest from '' @ Addr_String (SrcAddr r)],
        Conn := (Conn r)\<lparr>written := written (Conn r) @ [(Raw msg, SrcAddr r)]\<rparr>\<rparr>)"
  using assms by (simp add: Handle_def handleBindingRequest_def buildAndSend_def WriteTo_def)


text \<open>
  C2. For every Binding request with the 12-byte transaction ID \<open>T\<close> whose source address
  decomposes into (ip, port), the responder builds one message and sends it through
  the connection to the source address. The message has transaction ID \<open>T\<close> and type
  Binding Success Response (\<open>0x0101\<close> on the wire); its attributes are XOR-MAPPED-ADDRESS
  and, last, FINGERPRINT. The XOR-MAPPED-ADDRESS decodes to exactly (ip, port), and the
  FINGERPRINT is the checksum of the bytes of the message before it.
\<close>

theorem Handle_binding_response:
  assumes "AddrIPPort (SrcAddr r) = Inr (ip, port)"
    and "length (TransactionID m) = 12"
  shows "\<exists>msg.
      written (Conn (snd (Handle r m))) = written (Conn r) @ [(Raw msg, SrcAddr r)] \<and>
      TransactionID msg = TransactionID m \<and>
      Type msg = BindingSuccess \<and>
      map AttrType (Attributes msg) = [AttrXORMappedAddress, AttrFingerprint] \<and>
      AttrType (last (Attributes msg)) = AttrFingerprint \<and>
      XORMappedAddress_GetFrom msg = Some (ip, port) \<and>
      Fingerprint_Check msg \<and>
      take 2 (Raw msg) = be16 0x0101 \<and>
      take 12 (drop 8 (Raw msg)) = TransactionID m"
proof -
  from AddrIPPort_Inr [OF assms(1)]
  have l: "length ip = 4 \<or> length ip = 16" and pr: "port mod 65536 = port"
    by simp_all
  obtain msg where b: "Build (buildMsg (TransactionID m) BindingSuccess
        [XORMappedAddress ip port, Fingerprint]) = Inr msg"
    and p: "TransactionID msg = TransactionID m" "Type msg = BindingSuccess"
      "map AttrType (Attributes msg) = [AttrXORMappedAddress, AttrFingerprint]"
      "XORMappedAddress_GetFrom msg = Some (ip, port mod 65536)"
      "Fingerprint_Check msg"
    using Build_response [OF l assms(2), of port] by (elim exE conjE)
  note h = Handle_Inr_ok [OF assms(1) b]
  have "length (TransactionID msg) = 12" using p(1) assms(2) by simp
  from Raw_header [OF this] p(1,2)
  have w: "take 2 (Raw msg) = be16 0x0101" "take 12 (drop 8 (Raw msg)) = TransactionID m"
    by (simp_all add: MessageType_Value_BindingSuccess)
  from h have r: "written (Conn (snd (Handle r m))) = written (Conn r) @ [(Raw msg, SrcAddr r)]"
    by simp
  from p(3) have "map AttrType (Attributes msg) \<noteq> []" by simp
  then have "AttrType (last (Attributes msg)) = last (map AttrType (Attributes msg))"
    by (simp add: last_map)
  with p(3) have la: "AttrType (last (Attributes msg)) = AttrFingerprint" by simp
  from p(4) pr have g: "XORMappedAddress_GetFrom msg = Some (ip, port)" by simp
  show ?thesis
    by (rule exI [of _ msg]) (simp only: r p(1,2,3,5) la g w simp_thms)
qed

text \<open>The spec's case: source 192.0.2.1:5000.\<close>

theorem Handle_binding_response_witness:
  "AddrIPPort (UDPAddr [192, 0, 2, 1] 5000 []) = Inr ([192, 0, 2, 1], 5000) \<and>
   length [1, 2, 3, 4, 5, 6, 7, 8, 9, 10, 11, 12 :: 8 word] = 12 \<and>
   (\<exists>msg.
      written (Conn (snd (Handle \<lparr>Conn = \<lparr>written = [], writeResult = None\<rparr>,
                   SrcAddr = UDPAddr [192, 0, 2, 1] 5000 [], Log = []\<rparr>
                  \<lparr>Type = \<lparr>Method = 1, Class = 0\<rparr>,
                   TransactionID = [1, 2, 3, 4, 5, 6, 7, 8, 9, 10, 11, 12],
                   Attributes = []\<rparr>))) = [(Raw msg, UDPAddr [192, 0, 2, 1] 5000 [])] \<and>
      TransactionID msg = [1, 2, 3, 4, 5, 6, 7, 8, 9, 10, 11, 12] \<and>
      Type msg = BindingSuccess \<and>
      AttrType (last (Attributes msg)) = AttrFingerprint \<and>
      XORMappedAddress_GetFrom msg = Some ([192, 0, 2, 1], 5000) \<and>
      Fingerprint_Check msg)"
proof -
  let ?r = "\<lparr>Conn = \<lparr>written = [], writeResult = None\<rparr>,
             SrcAddr = UDPAddr [192, 0, 2, 1] 5000 [], Log = []\<rparr>"
  let ?m = "\<lparr>Type = \<lparr>Method = 1, Class = 0\<rparr>,
             TransactionID = [1, 2, 3, 4, 5, 6, 7, 8, 9, 10, 11, 12 :: 8 word],
             Attributes = [] :: RawAttribute list\<rparr>"
  have a: "AddrIPPort (SrcAddr ?r) = Inr ([192, 0, 2, 1], 5000)"
    by (simp add: wellFormed_def)
  have c: "length (TransactionID ?m) = 12" by simp
  from Handle_binding_response [OF a c]
  obtain msg where
    "written (Conn (snd (Handle ?r ?m))) = written (Conn ?r) @ [(Raw msg, SrcAddr ?r)]"
    "TransactionID msg = TransactionID ?m"
    "Type msg = BindingSuccess"
    "AttrType (last (Attributes msg)) = AttrFingerprint"
    "XORMappedAddress_GetFrom msg = Some ([192, 0, 2, 1], 5000)"
    "Fingerprint_Check msg"
    by (elim exE conjE)
  then have "written (Conn (snd (Handle ?r ?m))) = [(Raw msg, UDPAddr [192, 0, 2, 1] 5000 [])] \<and>
      TransactionID msg = [1, 2, 3, 4, 5, 6, 7, 8, 9, 10, 11, 12] \<and>
      Type msg = BindingSuccess \<and>
      AttrType (last (Attributes msg)) = AttrFingerprint \<and>
      XORMappedAddress_GetFrom msg = Some ([192, 0, 2, 1], 5000) \<and>
      Fingerprint_Check msg"
    by simp
  moreover have "AddrIPPort (UDPAddr [192, 0, 2, 1] 5000 []) = Inr ([192, 0, 2, 1], 5000)"
    using a by simp
  ultimately show ?thesis by (intro conjI exI [of _ msg]) simp_all
qed

text \<open>
  C4. When the extraction of (IP, port) from the source address fails, the handler
  returns that error; only the debug line has been logged, and the connection is as it
  was: neither the building nor the sending helper has any part in the result,
  whatever they are.
\<close>

theorem handleBindingRequest_extraction_error:
  assumes "addrIPPort (SrcAddr r) = Inl err"
  shows "handleBindingRequest addrIPPort buildMsg' buildAndSend' r m =
           (Some err,
            r\<lparr>Log := Log r @ [''received BindingRequest from '' @ Addr_String (SrcAddr r)]\<rparr>) \<and>
         Conn (snd (handleBindingRequest addrIPPort buildMsg' buildAndSend' r m)) = Conn r"
  using assms by (simp add: handleBindingRequest_def)

text \<open>A source address that is neither UDP nor TCP, with the helpers as modelled.\<close>

theorem handleBindingRequest_extraction_error_witness:
  "AddrIPPort (SrcAddr \<lparr>Conn = \<lparr>written = [], writeResult = None\<rparr>,
                       SrcAddr = OtherAddr ''unix'' ''/tmp/turn.sock'', Log = []\<rparr>)
     = Inl AddressExtractionError \<and>
   (\<forall>m. fst (Handle \<lparr>Conn = \<lparr>written = [], writeResult = None\<rparr>,
                     SrcAddr = OtherAddr ''unix'' ''/tmp/turn.sock'', Log = []\<rparr> m)
          = Some AddressExtractionError \<and>
        written (Conn (snd (Handle \<lparr>Conn = \<lparr>written = [], writeResult = None\<rparr>,
                     SrcAddr = OtherAddr ''unix'' ''/tmp/turn.sock'', Log = []\<rparr> m))) = [])"
proof -
  let ?r = "\<lparr>Conn = \<lparr>written = [], writeResult = None\<rparr>,
             SrcAddr = OtherAddr ''unix'' ''/tmp/turn.sock'', Log = []\<rparr>"
  have a: "AddrIPPort (SrcAddr ?r) = Inl AddressExtractionError" by simp
  have "fst (Handle ?r m) = Some AddressExtractionError \<and>
        written (Conn (snd (Handle ?r m))) = []" for m
    using handleBindingRequest_extraction_error
      [of AddrIPPort ?r AddressExtractionError buildMsg buildAndSend m] a
    by (simp add: Handle_def)
  with a show ?thesis by blast
qed

lemma Handle_outcome:
  "\<exists>res ws. \<forall>r'. SrcAddr r' = SrcAddr r \<longrightarrow> writeResult (Conn r') = writeResult (Conn r) \<longrightarrow>
      fst (Handle r' m) = res \<and>
      written (Conn (snd (Handle r' m))) = written (Conn r') @ ws \<and>
      SrcAddr (snd (Handle r' m)) = SrcAddr r' \<and>
      writeResult (Conn (snd (Handle r' m))) = writeResult (Conn r')"
proof (cases "AddrIPPort (SrcAddr r)")
  case (Inl err)
  have "fst (Handle r' m) = Some err \<and>
      written (Conn (snd (Handle r' m))) = written (Conn r') @ [] \<and>
      SrcAddr (snd (Handle r' m)) = SrcAddr r' \<and>
      writeResult (Conn (snd (Handle r' m))) = writeResult (Conn r')"
    if "SrcAddr r' = SrcAddr r" for r'
    using Handle_Inl [of r' err m] Inl that by simp
  then show ?thesis by blast
next
  case (Inr p)
  obtain ip port where p: "p = (ip, port)" by (cases p) auto
  show ?thesis
  proof (cases "Build (buildMsg (TransactionID m) BindingSuccess [XORMappedAddress ip port, Fingerprint])")
    case (Inl err)
    have "fst (Handle r' m) = Some err \<and>
      written (Conn (snd (Handle r' m))) = written (Conn r') @ [] \<and>
      SrcAddr (snd (Handle r' m)) = SrcAddr r' \<and>
      writeResult (Conn (snd (Handle r' m))) = writeResult (Conn r')"
      if "SrcAddr r' = SrcAddr r" for r'
      using Handle_Inr_fail [of r' ip port m err] Inl Inr p that by simp
    then show ?thesis by blast
  next
    case (Inr msg)
    have "fst (Handle r' m) = writeResult (Conn r) \<and>
      written (Conn (snd (Handle r' m))) = written (Conn r') @ [(Raw msg, SrcAddr r)] \<and>
      SrcAddr (snd (Handle r' m)) = SrcAddr r' \<and>
      writeResult (Conn (snd (Handle r' m))) = writeResult (Conn r')"
      if "SrcAddr r' = SrcAddr r" "writeResult (Conn r') = writeResult (Conn r)" for r'
      using Handle_Inr_ok [of r' ip port m msg] Inr \<open>AddrIPPort (SrcAddr r) = Inr p\<close> p that by simp
    then show ?thesis by blast
  qed
qed


text \<open>
  C8. The decision of the permission handler does not depend on what has been logged
  before, so a second evaluation gives the same decision. The responder's result and
  the datagrams it passes to the connection depend only on the source address, the
  request and the transport's behaviour, not on what has been written or logged
  before: a second call, in the state the first one left, returns the same result and
  passes the same datagrams again.
\<close>

theorem handlers_deterministic:
  "map_sum id fst (PermissionHandler clientAddr peerIP lg1) =
     map_sum id fst (PermissionHandler clientAddr peerIP lg2) \<and>
   (SrcAddr r' = SrcAddr r \<and> writeResult (Conn r') = writeResult (Conn r) \<longrightarrow>
      fst (Handle r' m) = fst (Handle r m) \<and>
      (\<exists>ws. written (Conn (snd (Handle r m))) = written (Conn r) @ ws \<and>
            written (Conn (snd (Handle r' m))) = written (Conn r') @ ws)) \<and>
   fst (Handle (snd (Handle r m)) m) = fst (Handle r m) \<and>
   (\<exists>ws. written (Conn (snd (Handle r m))) = written (Conn r) @ ws \<and>
         written (Conn (snd (Handle (snd (Handle r m)) m))) = written (Conn r) @ ws @ ws)"
proof -
  obtain l1 l2 where
    "PermissionHandler clientAddr peerIP lg1 =
       Inr (hostPart (Addr_String clientAddr) = IP_String peerIP, lg1 @ [l1])"
    "PermissionHandler clientAddr peerIP lg2 =
       Inr (hostPart (Addr_String clientAddr) = IP_String peerIP, lg2 @ [l2])"
    using PermissionHandler_decision by meson
  then have 1: "map_sum id fst (PermissionHandler clientAddr peerIP lg1) =
     map_sum id fst (PermissionHandler clientAddr peerIP lg2)"
    by simp
  obtain res ws where o: "\<And>r'. SrcAddr r' = SrcAddr r \<Longrightarrow>
      writeResult (Conn r') = writeResult (Conn r) \<Longrightarrow>
      fst (Handle r' m) = res \<and>
      written (Conn (snd (Handle r' m))) = written (Conn r') @ ws \<and>
      SrcAddr (snd (Handle r' m)) = SrcAddr r' \<and>
      writeResult (Conn (snd (Handle r' m))) = writeResult (Conn r')"
    using Handle_outcome [of r m] by blast
  note a = o [of r, OF refl refl]
  have 2: "fst (Handle r' m) = fst (Handle r m) \<and>
      (\<exists>ws. written (Conn (snd (Handle r m))) = written (Conn r) @ ws \<and>
            written (Conn (snd (Handle r' m))) = written (Conn r') @ ws)"
    if "SrcAddr r' = SrcAddr r" "writeResult (Conn r') = writeResult (Conn r)"
    using o [OF that] a by auto
  have b: "fst (Handle (snd (Handle r m)) m) = res \<and>
      written (Conn (snd (Handle (snd (Handle r m)) m))) = written (Conn (snd (Handle r m))) @ ws"
    using o [of "snd (Handle r m)"] a by simp
  from a b have 3: "fst (Handle (snd (Handle r m)) m) = fst (Handle r m)" by simp
  from a b have 4: "written (Conn (snd (Handle r m))) = written (Conn r) @ ws \<and>
         written (Conn (snd (Handle (snd (Handle r m)) m))) = written (Conn r) @ ws @ ws"
    by simp
  from 1 2 3 4 show ?thesis by blast
qed

text \<open>Two states that differ in what was written and logged before.\<close>

theorem handlers_deterministic_witness:
  "SrcAddr \<lparr>Conn = \<lparr>written = [([0], OtherAddr ''udp'' ''peer'')], writeResult = None\<rparr>,
            SrcAddr = UDPAddr [192, 0, 2, 1] 5000 [], Log = [''earlier'']\<rparr>
     = SrcAddr \<lparr>Conn = \<lparr>written = [], writeResult = None\<rparr>,
                SrcAddr = UDPAddr [192, 0, 2, 1] 5000 [], Log = []\<rparr> \<and>
   (\<forall>m. fst (Handle \<lparr>Conn = \<lparr>written = [([0], OtherAddr ''udp'' ''peer'')], writeResult = None\<rparr>,
                     SrcAddr = UDPAddr [192, 0, 2, 1] 5000 [], Log = [''earlier'']\<rparr> m)
        = fst (Handle \<lparr>Conn = \<lparr>written = [], writeResult = None\<rparr>,
                       SrcAddr = UDPAddr [192, 0, 2, 1] 5000 [], Log = []\<rparr> m)) \<and>
   map_sum id fst (PermissionHandler (UDPAddr [10, 0, 0, 5] 4000 []) [10, 0, 0, 5] [])
     = map_sum id fst (PermissionHandler (UDPAddr [10, 0, 0, 5] 4000 []) [10, 0, 0, 5] [''earlier''])"
proof -
  let ?r' = "\<lparr>Conn = \<lparr>written = [([0], OtherAddr ''udp'' ''peer'')], writeResult = None\<rparr>,
            SrcAddr = UDPAddr [192, 0, 2, 1] 5000 [], Log = [''earlier'']\<rparr>"
  let ?r = "\<lparr>Conn = \<lparr>written = [], writeResult = None\<rparr>,
            SrcAddr = UDPAddr [192, 0, 2, 1] 5000 [], Log = []\<rparr>"
  have h: "SrcAddr ?r' = SrcAddr ?r \<and> writeResult (Conn ?r') = writeResult (Conn ?r)" by simp
  have "fst (Handle ?r' m) = fst (Handle ?r m)" for m
    using handlers_deterministic [of _ _ _ _ ?r' ?r m] h by blast
  moreover have "map_sum id fst (PermissionHandler (UDPAddr [10, 0, 0, 5] 4000 []) [10, 0, 0, 5] [])
     = map_sum id fst (PermissionHandler (UDPAddr [10, 0, 0, 5] 4000 []) [10, 0, 0, 5] [''earlier''])"
    using handlers_deterministic [of "UDPAddr [10, 0, 0, 5] 4000 []" "[10, 0, 0, 5]" "[]" "[''earlier'']"]
    by blast
  ultimately show ?thesis using h by blast
qed

end
